theory Spec2Isabelle
  imports Complex_Main "HOL-Library.Multiset" "HOL-Library.Sublist"
begin

section \<open>The Recommendation concept of listenbuddy\<close>

text \<open>
  A shallow embedding of \<^verbatim>\<open>src/concepts/Recommendation/RecommendationConcept.ts\<close>.

  Conventions of the embedding.
  \<^item> An \<^verbatim>\<open>ID\<close> is a JavaScript string and is modelled as \<^typ>\<open>string\<close>; a string is
    falsy exactly when it is empty. A \<^typ>\<open>char\<close> is a code unit from U+0000 to U+00FF
    (ASCII and Latin-1); strings with other code units are outside the model.
  \<^item> A \<^verbatim>\<open>number\<close> that carries a score or a confidence is a \<^typ>\<open>real\<close> (finite
    numbers, no rounding); \<^verbatim>\<open>amount\<close> is an \<^typ>\<open>int\<close>; a \<^verbatim>\<open>Date\<close> is its
    \<^verbatim>\<open>getTime()\<close> value, an \<^typ>\<open>int\<close> of milliseconds.
  \<^item> Inputs have their declared TypeScript types: a field declared \<^verbatim>\<open>string\<close> or
    \<^verbatim>\<open>number\<close> is present, and an optional field is an \<^typ>\<open>'a option\<close>.
  \<^item> The MongoDB collection is the list of its documents in natural order, together with
    a log of the calls made on it. Store calls are assumed not to throw.
  \<^item> \<^verbatim>\<open>Date.now()\<close>, \<^verbatim>\<open>new Date()\<close> and \<^verbatim>\<open>freshID()\<close> read the
    environment: the k-th reading of the clock and the k-th fresh identifier are
    parameters, and the state counts the readings made so far.
  \<^item> The completion provider and \<^verbatim>\<open>JSON.parse\<close> are external: the outcome of the one
    completion call and the parser (at the declared result type of
    \<^verbatim>\<open>_parseJSONFromLLMResponse\<close>) are parameters as well.
  \<^item> An operation returns \<open>Inl message\<close> for \<^verbatim>\<open>{ error: message }\<close> and \<open>Inr payload\<close>
    otherwise.
\<close>

subsection \<open>Strings\<close>

text \<open>
  \<^verbatim>\<open>String.prototype.toLowerCase\<close> on the code units U+0000 to U+00FF, which are the
  values of \<^typ>\<open>char\<close>: the upper-case letters there are A to Z (U+0041 to U+005A) and
  the Latin-1 letters U+00C0 to U+00DE without the multiplication sign U+00D7; each maps to
  the code unit 32 above it, and every other code unit is kept.
\<close>

definition isUpper_char :: "char \<Rightarrow> bool" where
  "isUpper_char c =
     ((65 \<le> (of_char c :: nat) \<and> (of_char c :: nat) \<le> 90) \<or>
      (192 \<le> (of_char c :: nat) \<and> (of_char c :: nat) \<le> 222 \<and> (of_char c :: nat) \<noteq> 215))"

definition toLowerCase_char :: "char \<Rightarrow> char" where
  "toLowerCase_char c = (if isUpper_char c then char_of ((of_char c :: nat) + 32) else c)"

definition toLowerCase :: "string \<Rightarrow> string" where
  "toLowerCase s = map toLowerCase_char s"

text \<open>The character class \<^verbatim>\<open>[a-z0-9]\<close>.\<close>

definition is_a_z0_9 :: "char \<Rightarrow> bool" where
  "is_a_z0_9 c =
     ((97 \<le> (of_char c :: nat) \<and> (of_char c :: nat) \<le> 122) \<or>
      (48 \<le> (of_char c :: nat) \<and> (of_char c :: nat) \<le> 57))"

text \<open>\<^verbatim>\<open>name.toLowerCase().replace(/[^a-z0-9]/g, "-")\<close>\<close>

definition nameSlug :: "string \<Rightarrow> string" where
  "nameSlug nm = map (\<lambda>c. if is_a_z0_9 c then c else CHR ''-'') (toLowerCase nm)"

text \<open>Decimal rendering of a number inside a template literal.\<close>

fun string_of_nat :: "nat \<Rightarrow> string" where
  "string_of_nat n =
     (if n < 10 then [char_of (48 + n)]
      else string_of_nat (n div 10) @ [char_of (48 + n mod 10)])"

declare string_of_nat.simps [simp del]

definition string_of_int :: "int \<Rightarrow> string" where
  "string_of_int i = (if i < 0 then CHR ''-'' # string_of_nat (nat (- i)) else string_of_nat (nat i))"

text \<open>\<^verbatim>\<open>`rec:${userId}:${slug}:${Date.now()}`\<close>\<close>

definition itemId :: "string \<Rightarrow> string \<Rightarrow> int \<Rightarrow> string" where
  "itemId uid nm t = ''rec:'' @ uid @ '':'' @ nameSlug nm @ '':'' @ string_of_int t"

text \<open>
  Splitting a text at the first occurrence of a pattern: the part before it and the
  part after it.
\<close>

fun split_first :: "string \<Rightarrow> string \<Rightarrow> (string \<times> string) option" where
  "split_first pat [] = (if pat = [] then Some ([], []) else None)"
| "split_first pat (c # cs) =
     (if take (length pat) (c # cs) = pat then Some ([], drop (length pat) (c # cs))
      else map_option (\<lambda>(b, a). (c # b, a)) (split_first pat cs))"

definition fence_open :: string where
  "fence_open = [CHR 0x60, CHR 0x60, CHR 0x60] @ ''json'' @ [CHR 0x0A]"

definition fence_close :: string where
  "fence_close = [CHR 0x0A, CHR 0x60, CHR 0x60, CHR 0x60]"

text \<open>
  Group 1 of the first match of the regular expression
  \<^verbatim>\<open>/```json\n([\s\S]*?)\n```/\<close>: the leftmost opening fence, then the shortest text
  up to a closing fence.
\<close>

definition fence_match :: "string \<Rightarrow> string option" where
  "fence_match text =
     (case split_first fence_open text of
        None \<Rightarrow> None
      | Some (_, rest) \<Rightarrow> map_option fst (split_first fence_close rest))"

subsection \<open>Data\<close>

text \<open>\<^verbatim>\<open>interface RecommendationDoc\<close>; \<open>doc_id\<close> is the field \<^verbatim>\<open>_id\<close>.\<close>

record RecommendationDoc =
  doc_id :: string
  userId :: string
  item1 :: string
  item2 :: string
  itemName :: string
  reasoning :: string
  confidence :: real
  feedback :: "bool option"
  createdAt :: int

text \<open>\<^verbatim>\<open>interface LLMRecommendationOutput\<close>\<close>

record LLMRecommendationOutput =
  llm_name :: string
  llm_reasoning :: string
  llm_confidence :: real

text \<open>
  \<^verbatim>\<open>interface MusicBrainzEntity\<close>: the optional fields \<^verbatim>\<open>id\<close>, \<^verbatim>\<open>name\<close> and
  \<^verbatim>\<open>title\<close>. The other fields only feed the prompt text.
\<close>

record MusicBrainzEntity =
  mb_id :: "string option"
  mb_name :: "string option"
  mb_title :: "string option"

text \<open>The elements of \<^verbatim>\<open>similarArtists\<close>.\<close>

record SimilarArtist =
  a_mbid :: string
  a_name :: string
  a_score :: real
  a_sharedGenres :: "string list"

text \<open>The elements of \<^verbatim>\<open>similarRecordings\<close> and of \<^verbatim>\<open>similarReleaseGroups\<close>.\<close>

record SimilarTitled =
  t_mbid :: string
  t_title :: string
  t_artist :: "string option"
  t_score :: real
  t_sharedGenres :: "string list"

text \<open>The elements of \<^verbatim>\<open>allSimilarItems\<close>: name, type and score.\<close>

record SimilarItem =
  s_name :: string
  s_type :: string
  s_score :: real

text \<open>The elements of the feedback history.\<close>

record FeedbackEntry =
  recommendationId :: string
  item :: string
  h_feedback :: bool
  h_reasoning :: string
  h_sourceItem :: string

text \<open>The candidates of \<^verbatim>\<open>getRecommendations\<close> and the entries it returns.\<close>

record Candidate =
  recommendedItem :: string
  c_feedback :: "bool option"
  c_confidence :: real
  c_createdAt :: int
  c_reasoning :: string
  c_itemName :: string

record ItemWithReasoning =
  r_item :: string
  r_itemName :: string
  r_reasoning :: string
  r_confidence :: real

subsection \<open>Environment and state\<close>

datatype completion = Throws string | Returns string

datatype dbcall = Find | InsertMany | UpdateMany | DeleteMany

text \<open>
  \<open>geminiLLM\<close> is \<open>None\<close> when no API key is configured, and otherwise the outcome of
  \<^verbatim>\<open>executeLLM(prompt)\<close>. \<open>JSON_parse\<close> gives \<open>None\<close> where \<^verbatim>\<open>JSON.parse\<close> throws,
  \<open>Some None\<close> for a falsy value and \<open>Some (Some xs)\<close> for an array.
\<close>

record env =
  geminiLLM :: "completion option"
  JSON_parse :: "string \<Rightarrow> LLMRecommendationOutput list option option"
  clock :: "nat \<Rightarrow> int"
  ids :: "nat \<Rightarrow> string"

record state =
  recommendations :: "RecommendationDoc list"
  calls :: "dbcall list"
  clock_reads :: nat
  ids_issued :: nat

definition Date_now :: "env \<Rightarrow> state \<Rightarrow> int \<times> state" where
  "Date_now e s = (clock e (clock_reads s), s\<lparr>clock_reads := Suc (clock_reads s)\<rparr>)"

definition freshID :: "env \<Rightarrow> state \<Rightarrow> string \<times> state" where
  "freshID e s = (ids e (ids_issued s), s\<lparr>ids_issued := Suc (ids_issued s)\<rparr>)"

text \<open>The collection operations the concept calls.\<close>

definition findDocs :: "(RecommendationDoc \<Rightarrow> bool) \<Rightarrow> state \<Rightarrow> RecommendationDoc list \<times> state" where
  "findDocs flt s = (filter flt (recommendations s), s\<lparr>calls := calls s @ [Find]\<rparr>)"

definition insertMany :: "RecommendationDoc list \<Rightarrow> state \<Rightarrow> state" where
  "insertMany ds s = s\<lparr>recommendations := recommendations s @ ds, calls := calls s @ [InsertMany]\<rparr>"

text \<open>\<open>updateMany\<close> returns the \<^verbatim>\<open>matchedCount\<close>.\<close>

definition updateMany ::
  "(RecommendationDoc \<Rightarrow> bool) \<Rightarrow> (RecommendationDoc \<Rightarrow> RecommendationDoc) \<Rightarrow> state \<Rightarrow> nat \<times> state" where
  "updateMany flt upd s =
     (length (filter flt (recommendations s)),
      s\<lparr>recommendations := map (\<lambda>d. if flt d then upd d else d) (recommendations s),
        calls := calls s @ [UpdateMany]\<rparr>)"

definition deleteMany :: "(RecommendationDoc \<Rightarrow> bool) \<Rightarrow> state \<Rightarrow> state" where
  "deleteMany flt s =
     s\<lparr>recommendations := filter (\<lambda>d. \<not> flt d) (recommendations s),
       calls := calls s @ [DeleteMany]\<rparr>"

text \<open>
  \<^verbatim>\<open>Array.prototype.sort(compare)\<close>: a stable sort; \<open>compare a b \<le> 0\<close> keeps \<open>a\<close>
  before \<open>b\<close>.
\<close>

fun insert_by :: "('a \<Rightarrow> 'a \<Rightarrow> real) \<Rightarrow> 'a \<Rightarrow> 'a list \<Rightarrow> 'a list" where
  "insert_by cmp x [] = [x]"
| "insert_by cmp x (y # ys) = (if cmp x y \<le> 0 then x # y # ys else y # insert_by cmp x ys)"

definition sort_by :: "('a \<Rightarrow> 'a \<Rightarrow> real) \<Rightarrow> 'a list \<Rightarrow> 'a list" where
  "sort_by cmp xs = foldr (insert_by cmp) xs []"

subsection \<open>getFeedbackHistory\<close>

definition getFeedbackHistory ::
  "string \<Rightarrow> string option \<Rightarrow> state \<Rightarrow> (string + FeedbackEntry list) \<times> state" where
  "getFeedbackHistory uid sourceItem s =
     (if uid = [] then (Inl ''User ID not specified.'', s)
      else
        let flt = (\<lambda>d. userId d = uid \<and> feedback d \<noteq> None \<and>
                       (case sourceItem of None \<Rightarrow> True | Some si \<Rightarrow> si = [] \<or> item1 d = si));
            (feedbackDocs, s1) = findDocs flt s;
            history = map (\<lambda>d. \<lparr>recommendationId = doc_id d,
                                 item = (if itemName d \<noteq> [] then itemName d else item2 d),
                                 h_feedback = the (feedback d),
                                 h_reasoning = reasoning d,
                                 h_sourceItem = item1 d\<rparr>) feedbackDocs
        in (Inr history, s1))"

subsection \<open>generate: the LLM path\<close>

text \<open>
  \<^verbatim>\<open>_parseJSONFromLLMResponse\<close>: the fenced text when the fence matches with a
  non-empty group, the whole text otherwise; \<open>None\<close> is \<^verbatim>\<open>null\<close>, returned also when
  \<^verbatim>\<open>JSON.parse\<close> throws.
\<close>

definition parseJSONFromLLMResponse :: "env \<Rightarrow> string \<Rightarrow> LLMRecommendationOutput list option" where
  "parseJSONFromLLMResponse e text =
     (case fence_match text of
        Some g \<Rightarrow>
          (if g \<noteq> [] then (case JSON_parse e g of None \<Rightarrow> None | Some v \<Rightarrow> v)
           else (case JSON_parse e text of None \<Rightarrow> None | Some v \<Rightarrow> v))
      | None \<Rightarrow> (case JSON_parse e text of None \<Rightarrow> None | Some v \<Rightarrow> v))"

text \<open>\<^verbatim>\<open>sourceItemMetadata?.name || sourceItemMetadata?.title\<close>; \<open>None\<close> is \<^verbatim>\<open>undefined\<close>.\<close>

definition sourceName :: "MusicBrainzEntity \<Rightarrow> string option" where
  "sourceName m =
     (case mb_name m of Some n \<Rightarrow> (if n \<noteq> [] then Some n else mb_title m) | None \<Rightarrow> mb_title m)"

text \<open>\<^verbatim>\<open>docs.map((d) => (d.itemName || "").toLowerCase()).filter((n) => n.length > 0)\<close>\<close>

definition lowerNames :: "RecommendationDoc list \<Rightarrow> string list" where
  "lowerNames ds = filter (\<lambda>n. length n > 0) (map (\<lambda>d. toLowerCase (itemName d)) ds)"

text \<open>The condition under which the LLM loop stores a candidate.\<close>

definition llmAccepts ::
  "MusicBrainzEntity \<Rightarrow> string list \<Rightarrow> string list \<Rightarrow> LLMRecommendationOutput \<Rightarrow> bool" where
  "llmAccepts meta existingFeedbackNames existingRecommendedNames r =
     (let normalizedName = toLowerCase (llm_name r) in
        llm_name r \<noteq> [] \<and>
        Some (llm_name r) \<noteq> sourceName meta \<and>
        \<not> (normalizedName \<noteq> [] \<and> normalizedName \<in> set existingFeedbackNames) \<and>
        \<not> (normalizedName \<noteq> [] \<and> normalizedName \<in> set existingRecommendedNames) \<and>
        \<not> (normalizedName \<noteq> [] \<and> normalizedName \<in> set existingFeedbackNames))"

fun llmLoop ::
  "env \<Rightarrow> string \<Rightarrow> string \<Rightarrow> int \<Rightarrow> MusicBrainzEntity \<Rightarrow> string list \<Rightarrow> string list \<Rightarrow>
   LLMRecommendationOutput list \<Rightarrow> RecommendationDoc list \<Rightarrow> state \<Rightarrow>
   RecommendationDoc list \<times> state" where
  "llmLoop e uid sourceItemMBID amount meta fbNames recNames [] newRecommendations s =
     (newRecommendations, s)"
| "llmLoop e uid sourceItemMBID amount meta fbNames recNames (r # rs) newRecommendations s =
     (if int (length newRecommendations) \<ge> amount then (newRecommendations, s)
      else
        let (t, s1) = Date_now e s;
            iid = itemId uid (llm_name r) t
        in if llmAccepts meta fbNames recNames r
           then
             let (fid, s2) = freshID e s1;
                 (created, s3) = Date_now e s2
             in llmLoop e uid sourceItemMBID amount meta fbNames recNames rs
                  (newRecommendations @
                     [\<lparr>doc_id = fid, userId = uid, item1 = sourceItemMBID, item2 = iid,
                       itemName = llm_name r, reasoning = llm_reasoning r,
                       confidence = max 0 (min 1 (llm_confidence r)),
                       feedback = None, createdAt = created\<rparr>]) s3
           else llmLoop e uid sourceItemMBID amount meta fbNames recNames rs newRecommendations s1)"

subsection \<open>generate: the fallback path\<close>

definition allSimilarItems ::
  "SimilarArtist list \<Rightarrow> SimilarTitled list \<Rightarrow> SimilarTitled list \<Rightarrow> SimilarItem list" where
  "allSimilarItems similarArtists similarRecordings similarReleaseGroups =
     map (\<lambda>a. \<lparr>s_name = a_name a, s_type = ''artist'', s_score = a_score a\<rparr>) similarArtists @
     map (\<lambda>r. \<lparr>s_name = t_title r, s_type = ''recording'', s_score = t_score r\<rparr>) similarRecordings @
     map (\<lambda>rg. \<lparr>s_name = t_title rg, s_type = ''release-group'', s_score = t_score rg\<rparr>)
       similarReleaseGroups"

text \<open>
  The body of the \<^verbatim>\<open>forEach\<close>. The accumulator holds \<^verbatim>\<open>newRecommendations\<close>,
  \<^verbatim>\<open>uniqueRecommendedItems\<close> and \<^verbatim>\<open>seenNames\<close>; the two sets are kept as lists
  without repetition, so that \<^verbatim>\<open>size\<close> is \<open>length\<close>.
\<close>

fun fallbackLoop ::
  "env \<Rightarrow> string \<Rightarrow> string \<Rightarrow> int \<Rightarrow> string list \<Rightarrow> string list \<Rightarrow> SimilarItem list \<Rightarrow>
   RecommendationDoc list \<times> string list \<times> string list \<Rightarrow> state \<Rightarrow>
   (RecommendationDoc list \<times> string list \<times> string list) \<times> state" where
  "fallbackLoop e uid sourceItemMBID amount fbItems fbNames [] acc s = (acc, s)"
| "fallbackLoop e uid sourceItemMBID amount fbItems fbNames (it # its)
     (newRecommendations, uniqueRecommendedItems, seenNames) s =
     (let (t, s1) = Date_now e s;
          iid = itemId uid (s_name it) t;
          normalizedName = toLowerCase (s_name it)
      in if int (length uniqueRecommendedItems) < amount \<and>
            iid \<notin> set uniqueRecommendedItems \<and>
            normalizedName \<notin> set seenNames \<and>
            normalizedName \<notin> set fbItems \<and>
            normalizedName \<notin> set fbNames
         then
           let (fid, s2) = freshID e s1;
               (created, s3) = Date_now e s2
           in fallbackLoop e uid sourceItemMBID amount fbItems fbNames its
                (newRecommendations @
                   [\<lparr>doc_id = fid, userId = uid, item1 = sourceItemMBID, item2 = iid,
                     itemName = s_name it,
                     reasoning = ''Based on its similarity as a '' @ s_type it @
                                 '' and shared genres. (LLM not available)'',
                     confidence = s_score it / 100,
                     feedback = None, createdAt = created\<rparr>],
                 uniqueRecommendedItems @ [iid],
                 seenNames @ [normalizedName]) s3
         else fallbackLoop e uid sourceItemMBID amount fbItems fbNames its
                (newRecommendations, uniqueRecommendedItems, seenNames) s1)"

text \<open>The items the \<^verbatim>\<open>forEach\<close> visits: sorted by score, descending, then sliced.\<close>

definition fallbackWindow :: "int \<Rightarrow> SimilarItem list \<Rightarrow> SimilarItem list" where
  "fallbackWindow amount items =
     take (nat (amount * 2)) (sort_by (\<lambda>a b. s_score b - s_score a) items)"

definition generateFallbackRecommendations ::
  "env \<Rightarrow> string \<Rightarrow> string \<Rightarrow> int \<Rightarrow>
   SimilarArtist list \<Rightarrow> SimilarTitled list \<Rightarrow> SimilarTitled list \<Rightarrow>
   FeedbackEntry list \<Rightarrow> string list \<Rightarrow> state \<Rightarrow>
   (string + RecommendationDoc list) \<times> state" where
  "generateFallbackRecommendations e uid sourceItemMBID amount
     similarArtists similarRecordings similarReleaseGroups userFeedbackHistory existingFeedbackNames s =
     (let existingFeedbackItems = map (\<lambda>f. toLowerCase (item f)) userFeedbackHistory;
          ((newRecommendations, _, _), s1) =
            fallbackLoop e uid sourceItemMBID amount existingFeedbackItems existingFeedbackNames
              (fallbackWindow amount
                 (allSimilarItems similarArtists similarRecordings similarReleaseGroups))
              ([], [], []) s;
          s2 = (if length newRecommendations > 0 then insertMany newRecommendations s1 else s1)
      in (Inr newRecommendations, s2))"

subsection \<open>generate\<close>

text \<open>\<^verbatim>\<open>sourceItemMetadata?.id || sourceItem\<close>\<close>

definition resolveMBID :: "MusicBrainzEntity \<Rightarrow> string \<Rightarrow> string" where
  "resolveMBID meta sourceItem =
     (case mb_id meta of Some i \<Rightarrow> (if i \<noteq> [] then i else sourceItem) | None \<Rightarrow> sourceItem)"

definition generate ::
  "env \<Rightarrow> string \<Rightarrow> string \<Rightarrow> int \<Rightarrow> MusicBrainzEntity \<Rightarrow>
   SimilarArtist list \<Rightarrow> SimilarTitled list \<Rightarrow> SimilarTitled list \<Rightarrow> state \<Rightarrow>
   (string + RecommendationDoc list) \<times> state" where
  "generate e uid sourceItem amount meta similarArtists similarRecordings similarReleaseGroups s =
     (if uid = [] \<or> sourceItem = [] \<or> amount \<le> 0
      then (Inl ''Invalid user ID, source item or amount specified.'', s)
      else
        let sourceItemMBID = resolveMBID meta sourceItem;
            (feedbackHistoryResult, s1) = getFeedbackHistory uid (Some sourceItemMBID) s;
            userFeedbackHistory = (case feedbackHistoryResult of Inr h \<Rightarrow> h | Inl _ \<Rightarrow> []);
            (feedbackNameDocs, s2) =
              findDocs (\<lambda>d. userId d = uid \<and> item1 d = sourceItemMBID \<and> feedback d \<noteq> None) s1;
            existingFeedbackNames = lowerNames feedbackNameDocs;
            (previouslyRecommendedDocs, s3) =
              findDocs (\<lambda>d. userId d = uid \<and> item1 d = sourceItemMBID) s2;
            existingRecommendedNames = lowerNames previouslyRecommendedDocs
        in case geminiLLM e of
             None \<Rightarrow>
               generateFallbackRecommendations e uid sourceItemMBID amount
                 similarArtists similarRecordings similarReleaseGroups
                 userFeedbackHistory existingFeedbackNames s3
           | Some (Throws msg) \<Rightarrow> (Inl (''Failed to generate recommendations: '' @ msg), s3)
           | Some (Returns text) \<Rightarrow>
               (case parseJSONFromLLMResponse e text of
                  None \<Rightarrow> (Inl ''Failed to parse LLM recommendations.'', s3)
                | Some parsedRecommendations \<Rightarrow>
                    let (newRecommendations, s4) =
                          llmLoop e uid sourceItemMBID amount meta
                            existingFeedbackNames existingRecommendedNames
                            parsedRecommendations [] s3;
                        s5 = (if length newRecommendations > 0
                              then insertMany newRecommendations s4 else s4)
                    in (Inr newRecommendations, s5)))"

subsection \<open>getRecommendations\<close>

fun collectCandidates ::
  "string \<Rightarrow> string list \<Rightarrow> RecommendationDoc list \<Rightarrow> Candidate list \<Rightarrow> string list \<Rightarrow>
   Candidate list" where
  "collectCandidates itm ignore [] candidates seenItems = candidates"
| "collectCandidates itm ignore (rec # recs) candidates seenItems =
     (let recommendedId = (if item1 rec = itm then item2 rec else item1 rec);
          recommendedName = (if item1 rec = itm then itemName rec else [])
      in if recommendedId = itm \<or> recommendedId \<in> set seenItems
         then collectCandidates itm ignore recs candidates seenItems
         else if recommendedId \<in> set ignore
         then collectCandidates itm ignore recs candidates seenItems
         else collectCandidates itm ignore recs
                (candidates @
                   [\<lparr>recommendedItem = recommendedId, c_feedback = feedback rec,
                     c_confidence = confidence rec, c_createdAt = createdAt rec,
                     c_reasoning = reasoning rec, c_itemName = recommendedName\<rparr>])
                (seenItems @ [recommendedId]))"

text \<open>The comparator given to \<^verbatim>\<open>candidates.sort\<close>.\<close>

definition compareCandidates :: "Candidate \<Rightarrow> Candidate \<Rightarrow> real" where
  "compareCandidates a b =
     (if c_feedback a = Some True \<and> c_feedback b \<noteq> Some True then - 1
      else if c_feedback a \<noteq> Some True \<and> c_feedback b = Some True then 1
      else if c_feedback a = None \<and> c_feedback b = Some False then - 1
      else if c_feedback a = Some False \<and> c_feedback b = None then 1
      else if c_confidence a \<noteq> c_confidence b then c_confidence b - c_confidence a
      else real_of_int (c_createdAt b - c_createdAt a))"

definition entryOf :: "Candidate \<Rightarrow> ItemWithReasoning" where
  "entryOf c = \<lparr>r_item = recommendedItem c, r_itemName = c_itemName c,
                r_reasoning = c_reasoning c, r_confidence = c_confidence c\<rparr>"

fun selectLoop ::
  "int \<Rightarrow> bool \<Rightarrow> Candidate list \<Rightarrow> ItemWithReasoning list \<Rightarrow> ItemWithReasoning list" where
  "selectLoop amount feedbacked [] finalWithReasoning = finalWithReasoning"
| "selectLoop amount feedbacked (c # cs) finalWithReasoning =
     (if int (length finalWithReasoning) \<ge> amount then finalWithReasoning
      else if feedbacked
      then (if c_feedback c \<noteq> Some False
            then selectLoop amount feedbacked cs (finalWithReasoning @ [entryOf c])
            else selectLoop amount feedbacked cs finalWithReasoning)
      else (if c_feedback c = None
            then selectLoop amount feedbacked cs (finalWithReasoning @ [entryOf c])
            else selectLoop amount feedbacked cs finalWithReasoning))"

text \<open>
  The parameters \<^verbatim>\<open>feedbacked\<close> and \<^verbatim>\<open>ignore\<close> are optional: \<open>None\<close> takes the
  defaults \<^verbatim>\<open>true\<close> and \<^verbatim>\<open>[]\<close>.
\<close>

definition getRecommendations ::
  "string \<Rightarrow> string \<Rightarrow> int \<Rightarrow> bool option \<Rightarrow> string list option \<Rightarrow> state \<Rightarrow>
   (string + ItemWithReasoning list) \<times> state" where
  "getRecommendations uid itm amount feedbackedOpt ignoreOpt s =
     (let feedbacked = (case feedbackedOpt of None \<Rightarrow> True | Some b \<Rightarrow> b);
          ignore = (case ignoreOpt of None \<Rightarrow> [] | Some xs \<Rightarrow> xs)
      in if uid = [] \<or> itm = [] \<or> amount \<le> 0
         then (Inl ''Invalid user ID, item or amount specified.'', s)
         else
           let (allRelatedRecommendations, s1) =
                 findDocs (\<lambda>d. userId d = uid \<and> (item1 d = itm \<or> item2 d = itm)) s;
               candidates = collectCandidates itm ignore allRelatedRecommendations [] [];
               sorted = sort_by compareCandidates candidates
           in (Inr (selectLoop amount feedbacked sorted []), s1))"

subsection \<open>provideFeedback and clearRecommendations\<close>

definition provideFeedback ::
  "env \<Rightarrow> string \<Rightarrow> string \<Rightarrow> bool \<Rightarrow> state \<Rightarrow> (string + unit) \<times> state" where
  "provideFeedback e uid recommendedItm fb s =
     (if uid = [] \<or> recommendedItm = []
      then (Inl ''User ID or recommended item not specified.'', s)
      else
        let (now, s1) = Date_now e s;
            (matchedCount, s2) =
              updateMany (\<lambda>d. userId d = uid \<and> item2 d = recommendedItm)
                (\<lambda>d. d\<lparr>feedback := Some fb, createdAt := now\<rparr>) s1
        in if matchedCount = 0
           then (Inl ''No existing recommendation found for the provided item and user.'', s2)
           else (Inr (), s2))"

text \<open>
  The filter of \<^verbatim>\<open>clearRecommendations\<close>: \<open>Some u\<close> is \<^verbatim>\<open>{ userId: u }\<close> and \<open>None\<close> is
  the empty filter \<^verbatim>\<open>{}\<close>, which every document matches.
\<close>

definition clearFilter :: "string option \<Rightarrow> string option" where
  "clearFilter userIdOpt =
     (case userIdOpt of None \<Rightarrow> None | Some u \<Rightarrow> (if u \<noteq> [] then Some u else None))"

definition matchesFilter :: "string option \<Rightarrow> RecommendationDoc \<Rightarrow> bool" where
  "matchesFilter flt d = (case flt of None \<Rightarrow> True | Some u \<Rightarrow> userId d = u)"

definition clearRecommendations :: "string option \<Rightarrow> state \<Rightarrow> (string + unit) \<times> state" where
  "clearRecommendations userIdOpt s =
     (Inr (), deleteMany (matchesFilter (clearFilter userIdOpt)) s)"

subsection \<open>Notions used to state the properties\<close>

text \<open>The feedback filter of \<^verbatim>\<open>getRecommendations\<close>, as the specification words it.\<close>

definition qualifies :: "bool \<Rightarrow> Candidate \<Rightarrow> bool" where
  "qualifies feedbacked c =
     (if feedbacked then c_feedback c \<noteq> Some False else c_feedback c = None)"

text \<open>
  The ranking of the specification: positive before unset before negative, then the
  higher confidence, then the later \<^verbatim>\<open>createdAt\<close>.
\<close>

definition feedbackClass :: "bool option \<Rightarrow> nat" where
  "feedbackClass f = (case f of Some True \<Rightarrow> 0 | None \<Rightarrow> 1 | Some False \<Rightarrow> 2)"

definition rankedBefore :: "Candidate \<Rightarrow> Candidate \<Rightarrow> bool" where
  "rankedBefore a b =
     (feedbackClass (c_feedback a) < feedbackClass (c_feedback b) \<or>
      (feedbackClass (c_feedback a) = feedbackClass (c_feedback b) \<and>
       (c_confidence a > c_confidence b \<or>
        (c_confidence a = c_confidence b \<and> c_createdAt a \<ge> c_createdAt b))))"

text \<open>
  The lowercased names the fallback path treats as feedback-flagged for a user and a
  source item: those of the stored records with feedback set.
\<close>

definition flaggedNames :: "string \<Rightarrow> string \<Rightarrow> state \<Rightarrow> string list" where
  "flaggedNames uid mbid s =
     map (\<lambda>d. toLowerCase (if itemName d \<noteq> [] then itemName d else item2 d))
       (filter (\<lambda>d. userId d = uid \<and> feedback d \<noteq> None \<and> item1 d = mbid) (recommendations s))"

text \<open>
  The different identifier slugs among the candidates of a list whose lowercased name
  is not flagged.
\<close>

definition acceptableSlugs :: "string list \<Rightarrow> SimilarItem list \<Rightarrow> string list" where
  "acceptableSlugs flagged items =
     remdups (map (\<lambda>c. nameSlug (s_name c))
                (filter (\<lambda>c. toLowerCase (s_name c) \<notin> set flagged) items))"

definition scoreDescending :: "SimilarItem \<Rightarrow> SimilarItem \<Rightarrow> bool" where
  "scoreDescending a b = (s_score a \<ge> s_score b)"

text \<open>The slug inside an identifier made by \<open>itemId\<close> for a user.\<close>

definition slugOfId :: "string \<Rightarrow> string \<Rightarrow> string" where
  "slugOfId uid i = takeWhile (\<lambda>c. c \<noteq> CHR '':'') (drop (length (''rec:'' @ uid @ '':'')) i)"

text \<open>
  The invariant of the fallback loop: the two sets grow with the accepted records, the
  lowercased names seen are all different, and never more than \<open>amount\<close> records are
  accepted.
\<close>

definition fallbackInv ::
  "string \<Rightarrow> int \<Rightarrow> RecommendationDoc list \<Rightarrow> string list \<Rightarrow> string list \<Rightarrow> bool" where
  "fallbackInv uid amount acc uniq seen \<longleftrightarrow>
     length uniq = length acc \<and>
     seen = map (\<lambda>d. toLowerCase (itemName d)) acc \<and>
     distinct seen \<and>
     list_all (\<lambda>i. list_ex (\<lambda>d. nameSlug (itemName d) = slugOfId uid i) acc) uniq \<and>
     int (length acc) \<le> amount"

subsection \<open>Example inputs\<close>

definition ex_env :: env where
  "ex_env = \<lparr>geminiLLM = None, JSON_parse = (\<lambda>_. None), clock = (\<lambda>k. 1000 + int k),
             ids = (\<lambda>k. ''id'' @ string_of_nat k)\<rparr>"

definition ex_empty :: state where
  "ex_empty = \<lparr>recommendations = [], calls = [], clock_reads = 0, ids_issued = 0\<rparr>"

definition ex_doc ::
  "string \<Rightarrow> string \<Rightarrow> string \<Rightarrow> string \<Rightarrow> string \<Rightarrow> real \<Rightarrow> bool option \<Rightarrow> int \<Rightarrow> RecommendationDoc" where
  "ex_doc i u a b n c f t =
     \<lparr>doc_id = i, userId = u, item1 = a, item2 = b, itemName = n, reasoning = ''because'',
      confidence = c, feedback = f, createdAt = t\<rparr>"

text \<open>
  The store of the specification's ranking example: for one user and one source item a
  positive record of confidence 0.7, an unset one of 0.6 and a negative one of 0.95; and a
  record of another user.
\<close>

definition ex_store :: state where
  "ex_store =
     \<lparr>recommendations =
        [ex_doc ''d1'' ''alice'' ''src'' ''x'' ''X'' (7 / 10) (Some True) 10,
         ex_doc ''d2'' ''alice'' ''src'' ''y'' ''Y'' (6 / 10) None 20,
         ex_doc ''d3'' ''alice'' ''src'' ''z'' ''Z'' (95 / 100) (Some False) 30,
         ex_doc ''d4'' ''bob'' ''src'' ''x'' ''X'' (1 / 2) None 40],
      calls = [], clock_reads = 0, ids_issued = 0\<rparr>"

definition ex_entry :: "string \<Rightarrow> string \<Rightarrow> real \<Rightarrow> ItemWithReasoning" where
  "ex_entry i n c = \<lparr>r_item = i, r_itemName = n, r_reasoning = ''because'', r_confidence = c\<rparr>"

definition ex_meta :: MusicBrainzEntity where
  "ex_meta = \<lparr>mb_id = None, mb_name = Some ''Radiohead'', mb_title = None\<rparr>"

definition ex_artist :: "string \<Rightarrow> real \<Rightarrow> SimilarArtist" where
  "ex_artist n sc = \<lparr>a_mbid = ''mbid'', a_name = n, a_score = sc, a_sharedGenres = []\<rparr>"

text \<open>The record the fallback path makes from an artist, in the example environment.\<close>

definition ex_fallback_doc :: "string \<Rightarrow> string \<Rightarrow> string \<Rightarrow> real \<Rightarrow> int \<Rightarrow> RecommendationDoc" where
  "ex_fallback_doc i iid n c t =
     \<lparr>doc_id = i, userId = ''u'', item1 = ''src'', item2 = iid, itemName = n,
      reasoning = ''Based on its similarity as a artist and shared genres. (LLM not available)'',
      confidence = c, feedback = None, createdAt = t\<rparr>"

text \<open>A completion that names the same item twice.\<close>

definition ex_llm_output :: "LLMRecommendationOutput list" where
  "ex_llm_output =
     [\<lparr>llm_name = ''Muse'', llm_reasoning = ''first'', llm_confidence = 9 / 10\<rparr>,
      \<lparr>llm_name = ''Muse'', llm_reasoning = ''second'', llm_confidence = 8 / 10\<rparr>]"

definition ex_env_llm :: env where
  "ex_env_llm =
     ex_env\<lparr>geminiLLM := Some (Returns ''twice''),
            JSON_parse := (\<lambda>t. if t = ''twice'' then Some (Some ex_llm_output) else None)\<rparr>"

text \<open>A completion call that throws, and one that returns a fenced text that is no JSON.\<close>

definition ex_env_throws :: env where
  "ex_env_throws = ex_env\<lparr>geminiLLM := Some (Throws ''quota'')\<rparr>"

definition ex_fenced :: string where
  "ex_fenced = ''Here: '' @ fence_open @ ''[{oops'' @ fence_close"

definition ex_env_garbled :: env where
  "ex_env_garbled =
     ex_env\<lparr>geminiLLM := Some (Returns ex_fenced),
            JSON_parse := (\<lambda>t. if t = ''[]'' then Some (Some []) else None)\<rparr>"

text \<open>
  Similar artists for the fallback path: the end-to-end scenario of the specification,
  and a list whose four best entries are spellings of one name.
\<close>

definition ex_two :: "SimilarArtist list" where
  "ex_two = [ex_artist ''Muse'' 95, ex_artist ''Pink Floyd'' 70]"

definition ex_variants :: "SimilarArtist list" where
  "ex_variants =
     [ex_artist ''Muse'' 90, ex_artist ''muse'' 80, ex_artist ''MUSE'' 70,
      ex_artist ''MuSe'' 60, ex_artist ''Queen'' 50]"

text \<open>
  A store in which the user has judged two names recommended from the source item, and
  three similar artists of which the two best are the judged ones.
\<close>

definition ex_judged :: state where
  "ex_judged =
     \<lparr>recommendations =
        [ex_doc ''j1'' ''u'' ''src'' ''rec:u:muse:1'' ''Muse'' (9 / 10) (Some True) 1,
         ex_doc ''j2'' ''u'' ''src'' ''rec:u:blur:2'' ''Blur'' (8 / 10) (Some False) 2],
      calls = [], clock_reads = 0, ids_issued = 0\<rparr>"

definition ex_three :: "SimilarArtist list" where
  "ex_three = [ex_artist ''Muse'' 90, ex_artist ''Blur'' 80, ex_artist ''Queen'' 70]"

text \<open>
  An environment whose clock stands still during a call (all readings fall in one
  millisecond), and two names that differ after lowercasing but have one slug.
\<close>

definition ex_env_same_ms :: env where
  "ex_env_same_ms = ex_env\<lparr>clock := (\<lambda>k. 1000)\<rparr>"

definition ex_same_slug :: "SimilarArtist list" where
  "ex_same_slug = [ex_artist ''AC/DC'' 90, ex_artist ''AC-DC'' 80]"

section \<open>Properties\<close>

subsection \<open>Sorting with a comparator\<close>

lemma mset_insert_by: "mset (insert_by cmp x ys) = add_mset x (mset ys)"
  by (induction ys) auto

lemma mset_sort_by: "mset (sort_by cmp xs) = mset xs"
  unfolding sort_by_def by (induction xs) (auto simp: mset_insert_by)

lemma set_insert_by: "set (insert_by cmp x ys) = insert x (set ys)"
  by (induction ys) auto

lemma sorted_insert_by:
  assumes total: "\<And>a b. cmp a b \<le> 0 \<or> cmp b a \<le> 0"
    and trans: "\<And>a b c. cmp a b \<le> 0 \<Longrightarrow> cmp b c \<le> 0 \<Longrightarrow> cmp a c \<le> 0"
    and srt: "sorted_wrt (\<lambda>a b. cmp a b \<le> 0) ys"
  shows "sorted_wrt (\<lambda>a b. cmp a b \<le> 0) (insert_by cmp x ys)"
  using srt
proof (induction ys)
  case Nil
  then show ?case by simp
next
  case (Cons y ys)
  show ?case
  proof (cases "cmp x y \<le> 0")
    case True
    with Cons.prems trans show ?thesis by auto
  next
    case False
    with total have "cmp y x \<le> 0" by blast
    with False Cons show ?thesis by (auto simp: set_insert_by)
  qed
qed

lemma sorted_sort_by:
  assumes total: "\<And>a b. cmp a b \<le> 0 \<or> cmp b a \<le> 0"
    and trans: "\<And>a b c. cmp a b \<le> 0 \<Longrightarrow> cmp b c \<le> 0 \<Longrightarrow> cmp a c \<le> 0"
  shows "sorted_wrt (\<lambda>a b. cmp a b \<le> 0) (sort_by cmp xs)"
  unfolding sort_by_def
proof (induction xs)
  case Nil
  then show ?case by simp
next
  case (Cons x xs)
  have "sorted_wrt (\<lambda>a b. cmp a b \<le> 0) (insert_by cmp x (foldr (insert_by cmp) xs []))"
    by (rule sorted_insert_by [OF total trans Cons.IH])
  then show ?case by simp
qed

subsection \<open>getRecommendations\<close>

lemma compareCandidates_rankedBefore: "compareCandidates a b \<le> 0 \<longleftrightarrow> rankedBefore a b"
  by (cases "c_feedback a"; cases "c_feedback b")
     (simp_all add: compareCandidates_def rankedBefore_def feedbackClass_def less_le
        split: bool.splits)

lemma rankedBefore_total: "rankedBefore a b \<or> rankedBefore b a"
  unfolding rankedBefore_def by auto

lemma rankedBefore_trans: "rankedBefore a b \<Longrightarrow> rankedBefore b c \<Longrightarrow> rankedBefore a c"
  unfolding rankedBefore_def by (elim disjE conjE) simp_all

lemma sorted_candidates: "sorted_wrt rankedBefore (sort_by compareCandidates cs)"
proof -
  have "sorted_wrt (\<lambda>a b. compareCandidates a b \<le> 0) (sort_by compareCandidates cs)"
    by (rule sorted_sort_by)
       (auto simp: compareCandidates_rankedBefore rankedBefore_total intro: rankedBefore_trans)
  then show ?thesis by (simp add: compareCandidates_rankedBefore)
qed

text \<open>The selection loop takes the first \<open>amount\<close> qualifying candidates, in order.\<close>

lemma selectLoop_take_filter:
  "selectLoop amount fb cs acc =
     acc @ map entryOf (take (nat amount - length acc) (filter (qualifies fb) cs))"
proof (induction cs arbitrary: acc)
  case Nil
  then show ?case by simp
next
  case (Cons c cs)
  show ?case
  proof (cases "int (length acc) \<ge> amount")
    case True
    then have "nat amount - length acc = 0" by simp
    with True show ?thesis by simp
  next
    case False
    then obtain k where k: "nat amount - length acc = Suc k"
      by (cases "nat amount - length acc") (auto simp: nat_le_iff)
    then have k': "nat amount - Suc (length acc) = k" by simp
    from False k k' Cons.IH [of "acc @ [entryOf c]"] Cons.IH [of acc] show ?thesis
      by (cases fb) (simp_all add: qualifies_def)
  qed
qed

text \<open>Every candidate comes from one of the records the query found.\<close>

lemma collectCandidates_origin:
  assumes "c \<in> set (collectCandidates itm ignore recs cands seen)"
  shows "c \<in> set cands \<or>
         (\<exists>d \<in> set recs.
            c = \<lparr>recommendedItem = (if item1 d = itm then item2 d else item1 d),
                 c_feedback = feedback d, c_confidence = confidence d,
                 c_createdAt = createdAt d, c_reasoning = reasoning d,
                 c_itemName = (if item1 d = itm then itemName d else [])\<rparr>)"
  using assms
proof (induction recs arbitrary: cands seen)
  case Nil
  then show ?case by simp
next
  case (Cons r recs)
  let ?rid = "if item1 r = itm then item2 r else item1 r"
  show ?case
  proof (cases "?rid = itm \<or> ?rid \<in> set seen \<or> ?rid \<in> set ignore")
    case True
    with Cons.prems have "c \<in> set (collectCandidates itm ignore recs cands seen)"
      by (auto simp: Let_def split: if_splits)
    from Cons.IH [OF this] show ?thesis by auto
  next
    case False
    with Cons.prems obtain nc where
      nc: "nc = \<lparr>recommendedItem = ?rid, c_feedback = feedback r, c_confidence = confidence r,
                 c_createdAt = createdAt r, c_reasoning = reasoning r,
                 c_itemName = (if item1 r = itm then itemName r else [])\<rparr>"
      and mem: "c \<in> set (collectCandidates itm ignore recs (cands @ [nc]) (seen @ [?rid]))"
      by (auto simp: Let_def split: if_splits)
    from Cons.IH [OF mem] nc show ?thesis by auto
  qed
qed

lemma getRecommendations_result:
  assumes "uid \<noteq> []" and "itm \<noteq> []" and "0 < amount"
  shows "fst (getRecommendations uid itm amount fbOpt ignOpt s) =
         Inr (map entryOf
                (take (nat amount)
                   (filter (qualifies (case fbOpt of None \<Rightarrow> True | Some b \<Rightarrow> b))
                      (sort_by compareCandidates
                         (collectCandidates itm (case ignOpt of None \<Rightarrow> [] | Some xs \<Rightarrow> xs)
                            (filter (\<lambda>d. userId d = uid \<and> (item1 d = itm \<or> item2 d = itm))
                               (recommendations s)) [] [])))))"
  using assms
  by (simp add: getRecommendations_def findDocs_def Let_def selectLoop_take_filter)

lemma getRecommendations_entry_origin:
  assumes valid: "uid \<noteq> []" "itm \<noteq> []" "0 < amount"
    and res: "fst (getRecommendations uid itm amount fbOpt ignOpt s) = Inr out"
    and x: "x \<in> set out"
  shows "\<exists>d \<in> set (recommendations s).
           userId d = uid \<and> (item1 d = itm \<or> item2 d = itm) \<and>
           r_item x = (if item1 d = itm then item2 d else item1 d) \<and>
           r_itemName x = (if item1 d = itm then itemName d else []) \<and>
           r_reasoning x = reasoning d \<and> r_confidence x = confidence d \<and>
           (if (case fbOpt of None \<Rightarrow> True | Some b \<Rightarrow> b)
            then feedback d \<noteq> Some False else feedback d = None)"
proof -
  let ?fb = "case fbOpt of None \<Rightarrow> True | Some b \<Rightarrow> b"
  let ?docs = "filter (\<lambda>d. userId d = uid \<and> (item1 d = itm \<or> item2 d = itm)) (recommendations s)"
  let ?cands = "collectCandidates itm (case ignOpt of None \<Rightarrow> [] | Some xs \<Rightarrow> xs) ?docs [] []"
  from res x getRecommendations_result [OF valid, of fbOpt ignOpt s]
  have "x \<in> set (map entryOf (take (nat amount) (filter (qualifies ?fb) (sort_by compareCandidates ?cands))))"
    by simp
  then obtain c where c: "x = entryOf c"
    and cin: "c \<in> set (take (nat amount) (filter (qualifies ?fb) (sort_by compareCandidates ?cands)))"
    by auto
  from cin have "c \<in> set (filter (qualifies ?fb) (sort_by compareCandidates ?cands))"
    by (rule in_set_takeD)
  then have q: "qualifies ?fb c" and "c \<in> set (sort_by compareCandidates ?cands)"
    by simp_all
  then have "c \<in># mset (sort_by compareCandidates ?cands)" by simp
  then have "c \<in> set ?cands" by (simp add: mset_sort_by)
  from collectCandidates_origin [OF this]
  obtain d where d: "d \<in> set ?docs"
    and cd: "c = \<lparr>recommendedItem = (if item1 d = itm then item2 d else item1 d),
                 c_feedback = feedback d, c_confidence = confidence d,
                 c_createdAt = createdAt d, c_reasoning = reasoning d,
                 c_itemName = (if item1 d = itm then itemName d else [])\<rparr>"
    by auto
  from d have "d \<in> set (recommendations s)" "userId d = uid" "item1 d = itm \<or> item2 d = itm"
    by simp_all
  moreover from c cd have "r_item x = (if item1 d = itm then item2 d else item1 d)"
    "r_itemName x = (if item1 d = itm then itemName d else [])"
    "r_reasoning x = reasoning d" "r_confidence x = confidence d"
    by (simp_all add: entryOf_def)
  moreover from q cd have "if ?fb then feedback d \<noteq> Some False else feedback d = None"
    by (simp add: qualifies_def split: if_splits)
  ultimately show ?thesis by blast
qed

text \<open>
  C4. Every entry that \<open>getRecommendations\<close> returns is made from a stored record of the
  user on the queried item, the entry's item being the other side of that record; with
  \<^verbatim>\<open>feedbacked\<close> omitted or true the record's feedback is positive or unset (never
  negative), and with \<^verbatim>\<open>feedbacked = false\<close> it is unset.
\<close>

theorem getRecommendations_feedback_filter:
  assumes "uid \<noteq> []" and "itm \<noteq> []" and "0 < amount"
    and "fst (getRecommendations uid itm amount fbOpt ignOpt s) = Inr out"
    and "x \<in> set out"
  shows "\<exists>d \<in> set (recommendations s).
           userId d = uid \<and> (item1 d = itm \<or> item2 d = itm) \<and>
           r_item x = (if item1 d = itm then item2 d else item1 d) \<and>
           r_reasoning x = reasoning d \<and> r_confidence x = confidence d \<and>
           (fbOpt = None \<or> fbOpt = Some True \<longrightarrow> feedback d = Some True \<or> feedback d = None) \<and>
           (fbOpt = Some False \<longrightarrow> feedback d = None)"
proof -
  from getRecommendations_entry_origin [OF assms]
  obtain d where d: "d \<in> set (recommendations s)" "userId d = uid" "item1 d = itm \<or> item2 d = itm"
    "r_item x = (if item1 d = itm then item2 d else item1 d)"
    "r_reasoning x = reasoning d" "r_confidence x = confidence d"
    and f: "if (case fbOpt of None \<Rightarrow> True | Some b \<Rightarrow> b)
            then feedback d \<noteq> Some False else feedback d = None"
    by blast
  from f have "fbOpt = None \<or> fbOpt = Some True \<longrightarrow> feedback d = Some True \<or> feedback d = None"
    by (cases "feedback d") (auto split: option.splits if_splits)
  moreover from f have "fbOpt = Some False \<longrightarrow> feedback d = None"
    by auto
  ultimately show ?thesis using d by blast
qed

theorem getRecommendations_feedback_filter_witness:
  "fst (getRecommendations ''alice'' ''src'' 2 None None ex_store) =
     Inr [ex_entry ''x'' ''X'' (7 / 10), ex_entry ''y'' ''Y'' (6 / 10)] \<and>
   (\<exists>d \<in> set (recommendations ex_store).
      userId d = ''alice'' \<and> r_item (ex_entry ''y'' ''Y'' (6 / 10)) = item2 d \<and>
      feedback d \<noteq> Some False) \<and>
   fst (getRecommendations ''alice'' ''src'' 5 (Some False) None ex_store) =
     Inr [ex_entry ''y'' ''Y'' (6 / 10)] \<and>
   (\<exists>d \<in> set (recommendations ex_store).
      userId d = ''alice'' \<and> r_item (ex_entry ''y'' ''Y'' (6 / 10)) = item2 d \<and>
      feedback d = None)"
proof -
  have h1: "fst (getRecommendations ''alice'' ''src'' 2 None None ex_store) =
            Inr [ex_entry ''x'' ''X'' (7 / 10), ex_entry ''y'' ''Y'' (6 / 10)]"
    by code_simp
  have h2: "fst (getRecommendations ''alice'' ''src'' 5 (Some False) None ex_store) =
            Inr [ex_entry ''y'' ''Y'' (6 / 10)]"
    by code_simp
  have ne: "''alice'' \<noteq> []" "''src'' \<noteq> []" "(0::int) < 2" "(0::int) < 5" by simp_all
  have a: "\<exists>d \<in> set (recommendations ex_store).
      userId d = ''alice'' \<and> r_item (ex_entry ''y'' ''Y'' (6 / 10)) = item2 d \<and>
      feedback d \<noteq> Some False"
    using getRecommendations_feedback_filter [OF ne(1) ne(2) ne(3) h1, of "ex_entry ''y'' ''Y'' (6 / 10)"]
    by (auto simp: ex_store_def ex_doc_def ex_entry_def)
  have b: "\<exists>d \<in> set (recommendations ex_store).
      userId d = ''alice'' \<and> r_item (ex_entry ''y'' ''Y'' (6 / 10)) = item2 d \<and>
      feedback d = None"
    using getRecommendations_feedback_filter [OF ne(1) ne(2) ne(4) h2, of "ex_entry ''y'' ''Y'' (6 / 10)"]
    by (auto simp: ex_store_def ex_doc_def ex_entry_def)
  from h1 h2 a b show ?thesis by blast
qed

text \<open>
  C5. The candidates that \<open>getRecommendations\<close> returns are the first \<open>amount\<close> qualifying
  ones of the list of all candidates ranked by feedback class (positive, then unset,
  then negative), then by confidence, descending, then by \<^verbatim>\<open>createdAt\<close>, descending:
  the ranking is applied to all candidates before the truncation, and the returned
  candidates are in that order.
\<close>

theorem getRecommendations_ranked:
  assumes "uid \<noteq> []" and "itm \<noteq> []" and "0 < amount"
  shows "\<exists>candidates ranked.
           candidates = collectCandidates itm (case ignOpt of None \<Rightarrow> [] | Some xs \<Rightarrow> xs)
                          (filter (\<lambda>d. userId d = uid \<and> (item1 d = itm \<or> item2 d = itm))
                             (recommendations s)) [] [] \<and>
           mset ranked = mset candidates \<and>
           sorted_wrt rankedBefore ranked \<and>
           fst (getRecommendations uid itm amount fbOpt ignOpt s) =
             Inr (map entryOf
                    (take (nat amount)
                       (filter (qualifies (case fbOpt of None \<Rightarrow> True | Some b \<Rightarrow> b)) ranked))) \<and>
           sorted_wrt rankedBefore
             (take (nat amount)
                (filter (qualifies (case fbOpt of None \<Rightarrow> True | Some b \<Rightarrow> b)) ranked))"
proof -
  let ?cands = "collectCandidates itm (case ignOpt of None \<Rightarrow> [] | Some xs \<Rightarrow> xs)
                  (filter (\<lambda>d. userId d = uid \<and> (item1 d = itm \<or> item2 d = itm))
                     (recommendations s)) [] []"
  let ?ranked = "sort_by compareCandidates ?cands"
  let ?q = "qualifies (case fbOpt of None \<Rightarrow> True | Some b \<Rightarrow> b)"
  have s1: "sorted_wrt rankedBefore ?ranked" by (rule sorted_candidates)
  then have "sorted_wrt rankedBefore (filter ?q ?ranked)" by (rule sorted_wrt_filter)
  then have s2: "sorted_wrt rankedBefore (take (nat amount) (filter ?q ?ranked))"
    by (rule sorted_wrt_take)
  have m: "mset ?ranked = mset ?cands" by (rule mset_sort_by)
  from getRecommendations_result [OF assms, of fbOpt ignOpt s] s1 s2 m
  show ?thesis by blast
qed

theorem getRecommendations_ranked_witness:
  "\<exists>candidates ranked.
     candidates = collectCandidates ''src'' []
                    (filter (\<lambda>d. userId d = ''alice'' \<and> (item1 d = ''src'' \<or> item2 d = ''src''))
                       (recommendations ex_store)) [] [] \<and>
     mset ranked = mset candidates \<and>
     sorted_wrt rankedBefore ranked \<and>
     Inr [ex_entry ''x'' ''X'' (7 / 10), ex_entry ''y'' ''Y'' (6 / 10)] =
       Inr (map entryOf (take (nat 2) (filter (qualifies True) ranked))) \<and>
     sorted_wrt rankedBefore (take (nat 2) (filter (qualifies True) ranked))"
proof -
  have h1: "fst (getRecommendations ''alice'' ''src'' 2 None None ex_store) =
            Inr [ex_entry ''x'' ''X'' (7 / 10), ex_entry ''y'' ''Y'' (6 / 10)]"
    by code_simp
  have ne: "''alice'' \<noteq> []" "''src'' \<noteq> []" "(0::int) < 2" by simp_all
  from getRecommendations_ranked [OF ne, of None ex_store None] h1
  show ?thesis by simp
qed

text \<open>
  C10. An entry that \<open>getRecommendations\<close> returns comes from a stored record of the user
  either by a forward edge (\<open>item1\<close> is the queried item, the entry is \<open>item2\<close> with the
  stored display name) or by a reverse edge (\<open>item2\<close> is the queried item and \<open>item1\<close> is
  not, the entry is \<open>item1\<close>), and an entry from a reverse edge has the empty string as
  its \<open>itemName\<close>.
\<close>

theorem getRecommendations_reverse_edge_name:
  assumes "uid \<noteq> []" and "itm \<noteq> []" and "0 < amount"
    and "fst (getRecommendations uid itm amount fbOpt ignOpt s) = Inr out"
    and "x \<in> set out"
  shows "\<exists>d \<in> set (recommendations s). userId d = uid \<and>
           ((item1 d = itm \<and> r_item x = item2 d \<and> r_itemName x = itemName d) \<or>
            (item1 d \<noteq> itm \<and> item2 d = itm \<and> r_item x = item1 d \<and> r_itemName x = []))"
proof -
  from getRecommendations_entry_origin [OF assms]
  obtain d where d: "d \<in> set (recommendations s)" "userId d = uid" "item1 d = itm \<or> item2 d = itm"
    "r_item x = (if item1 d = itm then item2 d else item1 d)"
    "r_itemName x = (if item1 d = itm then itemName d else [])"
    by blast
  show ?thesis
  proof (cases "item1 d = itm")
    case True
    with d show ?thesis by auto
  next
    case False
    with d show ?thesis by auto
  qed
qed

theorem getRecommendations_reverse_edge_name_witness:
  "fst (getRecommendations ''alice'' ''x'' 1 None None ex_store) = Inr [ex_entry ''src'' [] (7 / 10)] \<and>
   (\<exists>d \<in> set (recommendations ex_store). userId d = ''alice'' \<and>
      item1 d \<noteq> ''x'' \<and> item2 d = ''x'' \<and> r_item (ex_entry ''src'' [] (7 / 10)) = item1 d \<and>
      r_itemName (ex_entry ''src'' [] (7 / 10)) = [])"
proof -
  have h: "fst (getRecommendations ''alice'' ''x'' 1 None None ex_store) =
           Inr [ex_entry ''src'' [] (7 / 10)]"
    by code_simp
  have ne: "''alice'' \<noteq> []" "''x'' \<noteq> []" "(0::int) < 1" by simp_all
  have "\<exists>d \<in> set (recommendations ex_store). userId d = ''alice'' \<and>
      item1 d \<noteq> ''x'' \<and> item2 d = ''x'' \<and> r_item (ex_entry ''src'' [] (7 / 10)) = item1 d \<and>
      r_itemName (ex_entry ''src'' [] (7 / 10)) = []"
    using getRecommendations_reverse_edge_name [OF ne h, of "ex_entry ''src'' [] (7 / 10)"]
    by (auto simp: ex_store_def ex_doc_def ex_entry_def)
  with h show ?thesis by blast
qed

subsection \<open>provideFeedback\<close>

text \<open>
  C7. For non-empty arguments: when no stored record has the user and \<open>item2\<close> equal to
  the recommended item, \<open>provideFeedback\<close> returns the "not found" error and the records
  are unchanged; otherwise it succeeds, and every matching record gets the given feedback
  and the time of the call as \<open>createdAt\<close>, all its other fields and every other record
  staying as they were.
\<close>

theorem provideFeedback_contract:
  assumes "uid \<noteq> []" and "ri \<noteq> []"
  shows "(\<not> (\<exists>d \<in> set (recommendations s). userId d = uid \<and> item2 d = ri) \<longrightarrow>
            fst (provideFeedback e uid ri fb s) =
              Inl ''No existing recommendation found for the provided item and user.'' \<and>
            recommendations (snd (provideFeedback e uid ri fb s)) = recommendations s) \<and>
         ((\<exists>d \<in> set (recommendations s). userId d = uid \<and> item2 d = ri) \<longrightarrow>
            fst (provideFeedback e uid ri fb s) = Inr () \<and>
            length (recommendations (snd (provideFeedback e uid ri fb s))) =
              length (recommendations s) \<and>
            (\<forall>i < length (recommendations s).
               recommendations (snd (provideFeedback e uid ri fb s)) ! i =
                 (if userId (recommendations s ! i) = uid \<and> item2 (recommendations s ! i) = ri
                  then (recommendations s ! i)
                         \<lparr>feedback := Some fb, createdAt := clock e (clock_reads s)\<rparr>
                  else recommendations s ! i)))"
proof -
  let ?m = "\<lambda>d. userId d = uid \<and> item2 d = ri"
  let ?u = "\<lambda>d. if ?m d then d\<lparr>feedback := Some fb, createdAt := clock e (clock_reads s)\<rparr> else d"
  have len0: "length (filter ?m (recommendations s)) = 0 \<longleftrightarrow>
              \<not> (\<exists>d \<in> set (recommendations s). ?m d)"
    by (simp add: filter_empty_conv)
  have unchanged: "map ?u (recommendations s) = recommendations s"
    if "\<not> (\<exists>d \<in> set (recommendations s). ?m d)"
    using that by (intro map_idI) auto
  show ?thesis
    using assms len0 unchanged
    by (auto simp: provideFeedback_def Date_now_def updateMany_def Let_def)
qed

theorem provideFeedback_contract_witness:
  "fst (provideFeedback ex_env ''alice'' ''nope'' True ex_store) =
     Inl ''No existing recommendation found for the provided item and user.'' \<and>
   recommendations (snd (provideFeedback ex_env ''alice'' ''nope'' True ex_store)) =
     recommendations ex_store \<and>
   fst (provideFeedback ex_env ''alice'' ''y'' True ex_store) = Inr () \<and>
   recommendations (snd (provideFeedback ex_env ''alice'' ''y'' True ex_store)) ! 1 =
     (recommendations ex_store ! 1)\<lparr>feedback := Some True, createdAt := 1000\<rparr> \<and>
   recommendations (snd (provideFeedback ex_env ''alice'' ''y'' True ex_store)) ! 0 =
     recommendations ex_store ! 0"
proof -
  have ne: "''alice'' \<noteq> []" "''nope'' \<noteq> []" "''y'' \<noteq> []" by simp_all
  have no: "\<not> (\<exists>d \<in> set (recommendations ex_store). userId d = ''alice'' \<and> item2 d = ''nope'')"
    by (simp add: ex_store_def ex_doc_def)
  have yes: "\<exists>d \<in> set (recommendations ex_store). userId d = ''alice'' \<and> item2 d = ''y''"
    by (simp add: ex_store_def ex_doc_def)
  have len: "(0::nat) < length (recommendations ex_store)" "(1::nat) < length (recommendations ex_store)"
    by (simp_all add: ex_store_def)
  have m: "userId (recommendations ex_store ! 1) = ''alice'' \<and> item2 (recommendations ex_store ! 1) = ''y''"
    "\<not> (userId (recommendations ex_store ! 0) = ''alice'' \<and> item2 (recommendations ex_store ! 0) = ''y'')"
    by (simp_all add: ex_store_def ex_doc_def)
  have t: "clock ex_env (clock_reads ex_store) = 1000"
    by (simp add: ex_env_def ex_store_def)
  from provideFeedback_contract [OF ne(1) ne(2), of ex_store ex_env True] no
  have a: "fst (provideFeedback ex_env ''alice'' ''nope'' True ex_store) =
             Inl ''No existing recommendation found for the provided item and user.'' \<and>
           recommendations (snd (provideFeedback ex_env ''alice'' ''nope'' True ex_store)) =
             recommendations ex_store"
    by blast
  from provideFeedback_contract [OF ne(1) ne(3), of ex_store ex_env True] yes
  have b: "fst (provideFeedback ex_env ''alice'' ''y'' True ex_store) = Inr ()"
    and c: "\<forall>i < length (recommendations ex_store).
               recommendations (snd (provideFeedback ex_env ''alice'' ''y'' True ex_store)) ! i =
                 (if userId (recommendations ex_store ! i) = ''alice'' \<and>
                     item2 (recommendations ex_store ! i) = ''y''
                  then (recommendations ex_store ! i)
                         \<lparr>feedback := Some True, createdAt := clock ex_env (clock_reads ex_store)\<rparr>
                  else recommendations ex_store ! i)"
    by blast+
  from c [rule_format, OF len(2)] m(1) t
  have c1: "recommendations (snd (provideFeedback ex_env ''alice'' ''y'' True ex_store)) ! 1 =
     (recommendations ex_store ! 1)\<lparr>feedback := Some True, createdAt := 1000\<rparr>"
    by simp
  from c [rule_format, OF len(1)] m(2)
  have c0: "recommendations (snd (provideFeedback ex_env ''alice'' ''y'' True ex_store)) ! 0 =
     recommendations ex_store ! 0"
    by simp
  from a b c1 c0 show ?thesis by blast
qed

subsection \<open>clearRecommendations\<close>

text \<open>
  C9. With the empty string as \<^verbatim>\<open>userId\<close>, \<open>clearRecommendations\<close> uses the empty filter,
  behaves as with the argument omitted, returns success (no validation error) and deletes
  the records of all users.
\<close>

theorem clearRecommendations_empty_userId:
  "clearFilter (Some []) = None \<and>
   clearRecommendations (Some []) s = clearRecommendations None s \<and>
   fst (clearRecommendations (Some []) s) = Inr () \<and>
   recommendations (snd (clearRecommendations (Some []) s)) = []"
  by (simp add: clearRecommendations_def clearFilter_def matchesFilter_def deleteMany_def)

theorem clearRecommendations_empty_userId_witness:
  "clearFilter (Some []) = None \<and>
   clearRecommendations (Some []) ex_store = clearRecommendations None ex_store \<and>
   fst (clearRecommendations (Some []) ex_store) = Inr () \<and>
   recommendations (snd (clearRecommendations (Some []) ex_store)) = []"
  by (rule clearRecommendations_empty_userId [of ex_store])

subsection \<open>generate: failures\<close>

lemma resolveMBID_nonempty: "sourceItem \<noteq> [] \<Longrightarrow> resolveMBID meta sourceItem \<noteq> []"
  by (simp add: resolveMBID_def split: option.splits)

lemma generate_invalid:
  assumes "uid = [] \<or> sourceItem = [] \<or> amount \<le> 0"
  shows "generate e uid sourceItem amount meta sa sr sg s =
           (Inl ''Invalid user ID, source item or amount specified.'', s)"
  using assms by (simp add: generate_def)

lemma generate_throws:
  assumes "uid \<noteq> []" and "sourceItem \<noteq> []" and "0 < amount"
    and "geminiLLM e = Some (Throws msg)"
  shows "generate e uid sourceItem amount meta sa sr sg s =
           (Inl (''Failed to generate recommendations: '' @ msg),
            s\<lparr>calls := calls s @ [Find, Find, Find]\<rparr>)"
  using assms
  by (simp add: generate_def getFeedbackHistory_def findDocs_def Let_def)

lemma parse_fails:
  assumes "JSON_parse e text = None"
    and "\<forall>g. fence_match text = Some g \<longrightarrow> JSON_parse e g = None"
  shows "parseJSONFromLLMResponse e text = None"
  using assms by (simp add: parseJSONFromLLMResponse_def split: option.splits)

lemma generate_unparseable:
  assumes "uid \<noteq> []" and "sourceItem \<noteq> []" and "0 < amount"
    and "geminiLLM e = Some (Returns text)"
    and "parseJSONFromLLMResponse e text = None"
  shows "generate e uid sourceItem amount meta sa sr sg s =
           (Inl ''Failed to parse LLM recommendations.'',
            s\<lparr>calls := calls s @ [Find, Find, Find]\<rparr>)"
  using assms
  by (simp add: generate_def getFeedbackHistory_def findDocs_def Let_def)

text \<open>
  C8. \<open>generate\<close> with an empty \<^verbatim>\<open>userId\<close>, an empty \<^verbatim>\<open>sourceItem\<close> or a non-positive
  \<^verbatim>\<open>amount\<close> returns the validation error and leaves the state as it was, with no
  call made on the store. On the LLM path, when the completion call throws, or when its
  text is not parseable as JSON, neither as it is nor inside a markdown fence, \<open>generate\<close>
  returns an error, the stored records are unchanged, and the only calls made on the
  store are the three reads.
\<close>

theorem generate_atomic_on_failure:
  "(uid = [] \<or> sourceItem = [] \<or> amount \<le> 0 \<longrightarrow>
      generate e uid sourceItem amount meta sa sr sg s =
        (Inl ''Invalid user ID, source item or amount specified.'', s)) \<and>
   (uid \<noteq> [] \<and> sourceItem \<noteq> [] \<and> 0 < amount \<and>
    (geminiLLM e = Some (Throws msg) \<or>
     (geminiLLM e = Some (Returns text) \<and> JSON_parse e text = None \<and>
      (\<forall>g. fence_match text = Some g \<longrightarrow> JSON_parse e g = None))) \<longrightarrow>
      (\<exists>err. fst (generate e uid sourceItem amount meta sa sr sg s) = Inl err) \<and>
      recommendations (snd (generate e uid sourceItem amount meta sa sr sg s)) = recommendations s \<and>
      calls (snd (generate e uid sourceItem amount meta sa sr sg s)) = calls s @ [Find, Find, Find])"
proof (intro conjI impI)
  assume "uid = [] \<or> sourceItem = [] \<or> amount \<le> 0"
  then show "generate e uid sourceItem amount meta sa sr sg s =
        (Inl ''Invalid user ID, source item or amount specified.'', s)"
    by (rule generate_invalid)
next
  assume a: "uid \<noteq> [] \<and> sourceItem \<noteq> [] \<and> 0 < amount \<and>
    (geminiLLM e = Some (Throws msg) \<or>
     (geminiLLM e = Some (Returns text) \<and> JSON_parse e text = None \<and>
      (\<forall>g. fence_match text = Some g \<longrightarrow> JSON_parse e g = None)))"
  then have valid: "uid \<noteq> []" "sourceItem \<noteq> []" "0 < amount" by simp_all
  from a have "geminiLLM e = Some (Throws msg) \<or>
     (geminiLLM e = Some (Returns text) \<and> parseJSONFromLLMResponse e text = None)"
    using parse_fails by blast
  then have "\<exists>err. generate e uid sourceItem amount meta sa sr sg s =
                 (Inl err, s\<lparr>calls := calls s @ [Find, Find, Find]\<rparr>)"
    using generate_throws [OF valid] generate_unparseable [OF valid] by blast
  then obtain err where g: "generate e uid sourceItem amount meta sa sr sg s =
                 (Inl err, s\<lparr>calls := calls s @ [Find, Find, Find]\<rparr>)" ..
  show "\<exists>err. fst (generate e uid sourceItem amount meta sa sr sg s) = Inl err"
    by (simp add: g)
  show "recommendations (snd (generate e uid sourceItem amount meta sa sr sg s)) = recommendations s"
    by (simp add: g)
  show "calls (snd (generate e uid sourceItem amount meta sa sr sg s)) = calls s @ [Find, Find, Find]"
    by (simp add: g)
qed

theorem generate_atomic_on_failure_witness:
  "generate ex_env ''alice'' ''src'' 0 ex_meta [] [] [] ex_store =
     (Inl ''Invalid user ID, source item or amount specified.'', ex_store) \<and>
   fst (generate ex_env_throws ''alice'' ''src'' 2 ex_meta [] [] [] ex_store) =
     Inl ''Failed to generate recommendations: quota'' \<and>
   recommendations (snd (generate ex_env_throws ''alice'' ''src'' 2 ex_meta [] [] [] ex_store)) =
     recommendations ex_store \<and>
   fst (generate ex_env_garbled ''alice'' ''src'' 2 ex_meta [] [] [] ex_store) =
     Inl ''Failed to parse LLM recommendations.'' \<and>
   recommendations (snd (generate ex_env_garbled ''alice'' ''src'' 2 ex_meta [] [] [] ex_store)) =
     recommendations ex_store \<and>
   calls (snd (generate ex_env_garbled ''alice'' ''src'' 2 ex_meta [] [] [] ex_store)) =
     [Find, Find, Find]"
proof -
  have e1: "fst (generate ex_env_throws ''alice'' ''src'' 2 ex_meta [] [] [] ex_store) =
     Inl ''Failed to generate recommendations: quota''"
    by code_simp
  have e2: "fst (generate ex_env_garbled ''alice'' ''src'' 2 ex_meta [] [] [] ex_store) =
     Inl ''Failed to parse LLM recommendations.''"
    by code_simp
  have c0: "calls ex_store = []" by (simp add: ex_store_def)
  have h1: "''alice'' \<noteq> [] \<and> ''src'' \<noteq> [] \<and> (0::int) < 2 \<and>
    (geminiLLM ex_env_throws = Some (Throws ''quota'') \<or>
     (geminiLLM ex_env_throws = Some (Returns ex_fenced) \<and> JSON_parse ex_env_throws ex_fenced = None \<and>
      (\<forall>g. fence_match ex_fenced = Some g \<longrightarrow> JSON_parse ex_env_throws g = None)))"
    by (simp add: ex_env_throws_def ex_env_def)
  have fm: "fence_match ex_fenced = Some ''[{oops''" by code_simp
  have h2: "''alice'' \<noteq> [] \<and> ''src'' \<noteq> [] \<and> (0::int) < 2 \<and>
    (geminiLLM ex_env_garbled = Some (Throws ''quota'') \<or>
     (geminiLLM ex_env_garbled = Some (Returns ex_fenced) \<and> JSON_parse ex_env_garbled ex_fenced = None \<and>
      (\<forall>g. fence_match ex_fenced = Some g \<longrightarrow> JSON_parse ex_env_garbled g = None)))"
    by (simp add: fm) (simp add: ex_env_garbled_def ex_env_def ex_fenced_def fence_open_def)
  have a: "generate ex_env ''alice'' ''src'' 0 ex_meta [] [] [] ex_store =
     (Inl ''Invalid user ID, source item or amount specified.'', ex_store)"
    using generate_atomic_on_failure [of "''alice''" "''src''" 0 ex_env ex_meta "[]" "[]" "[]" ex_store]
    by simp
  from generate_atomic_on_failure
         [of "''alice''" "''src''" 2 ex_env_throws ex_meta "[]" "[]" "[]" ex_store "''quota''" ex_fenced] h1
  have b: "recommendations (snd (generate ex_env_throws ''alice'' ''src'' 2 ex_meta [] [] [] ex_store)) =
     recommendations ex_store"
    by blast
  from generate_atomic_on_failure
         [of "''alice''" "''src''" 2 ex_env_garbled ex_meta "[]" "[]" "[]" ex_store "''quota''" ex_fenced] h2
  have c: "recommendations (snd (generate ex_env_garbled ''alice'' ''src'' 2 ex_meta [] [] [] ex_store)) =
     recommendations ex_store"
    and d: "calls (snd (generate ex_env_garbled ''alice'' ''src'' 2 ex_meta [] [] [] ex_store)) =
     calls ex_store @ [Find, Find, Find]"
    by blast+
  from a e1 b e2 c d c0 show ?thesis by simp
qed

subsection \<open>generate: the fallback path\<close>

lemma colon_notin_nameSlug: "CHR '':'' \<notin> set (nameSlug nm)"
  by (auto simp: nameSlug_def is_a_z0_9_def)

lemma slug_of_itemId: "slugOfId uid (itemId uid nm t) = nameSlug nm"
proof -
  have "\<And>x. x \<in> set (nameSlug nm) \<Longrightarrow> x \<noteq> CHR '':''"
    using colon_notin_nameSlug by blast
  then have "takeWhile (\<lambda>c. c \<noteq> CHR '':'') (nameSlug nm @ '':'' @ string_of_int t) = nameSlug nm"
    by (simp add: takeWhile_append2)
  then show ?thesis by (simp add: itemId_def slugOfId_def)
qed

lemma nameSlug_lower: "toLowerCase a = toLowerCase b \<Longrightarrow> nameSlug a = nameSlug b"
  by (simp add: nameSlug_def)

lemma fallbackLoop_Cons:
  "fallbackLoop e uid mbid amount fbI fbN (it # its) (acc, uniq, seen) s =
     (if int (length uniq) < amount \<and>
         itemId uid (s_name it) (clock e (clock_reads s)) \<notin> set uniq \<and>
         toLowerCase (s_name it) \<notin> set seen \<and>
         toLowerCase (s_name it) \<notin> set fbI \<and>
         toLowerCase (s_name it) \<notin> set fbN
      then fallbackLoop e uid mbid amount fbI fbN its
             (acc @ [\<lparr>doc_id = ids e (ids_issued s), userId = uid, item1 = mbid,
                      item2 = itemId uid (s_name it) (clock e (clock_reads s)),
                      itemName = s_name it,
                      reasoning = ''Based on its similarity as a '' @ s_type it @
                                  '' and shared genres. (LLM not available)'',
                      confidence = s_score it / 100,
                      feedback = None, createdAt = clock e (Suc (clock_reads s))\<rparr>],
              uniq @ [itemId uid (s_name it) (clock e (clock_reads s))],
              seen @ [toLowerCase (s_name it)])
             (s\<lparr>ids_issued := Suc (ids_issued s), clock_reads := Suc (Suc (clock_reads s))\<rparr>)
      else fallbackLoop e uid mbid amount fbI fbN its (acc, uniq, seen)
             (s\<lparr>clock_reads := Suc (clock_reads s)\<rparr>))"
  by (simp add: Date_now_def freshID_def Let_def)

text \<open>
  One run of the loop: the invariant is kept; the accepted records extend the
  accumulator by records named after a subsequence of the items, none of them flagged;
  and when fewer than \<open>amount\<close> records were accepted, every unflagged item has the slug
  of an accepted record.
\<close>

lemma fallbackLoop_props:
  assumes "fallbackLoop e uid mbid amount fbI fbN items (acc, uniq, seen) s = ((acc', uniq', seen'), s')"
    and "fallbackInv uid amount acc uniq seen"
  shows "fallbackInv uid amount acc' uniq' seen' \<and>
         (\<exists>ys. acc' = acc @ ys \<and> subseq (map itemName ys) (map s_name items) \<and>
               (\<forall>d \<in> set ys. toLowerCase (itemName d) \<notin> set seen \<and>
                   toLowerCase (itemName d) \<notin> set fbI \<and> toLowerCase (itemName d) \<notin> set fbN)) \<and>
         (int (length acc') < amount \<longrightarrow>
            (\<forall>c \<in> set items. toLowerCase (s_name c) \<notin> set fbI \<and> toLowerCase (s_name c) \<notin> set fbN \<longrightarrow>
               nameSlug (s_name c) \<in> (\<lambda>d. nameSlug (itemName d)) ` set acc'))"
  using assms
proof (induction items arbitrary: acc uniq seen s)
  case Nil
  then show ?case by simp
next
  case (Cons it its)
  let ?iid = "itemId uid (s_name it) (clock e (clock_reads s))"
  let ?nn = "toLowerCase (s_name it)"
  let ?doc = "\<lparr>doc_id = ids e (ids_issued s), userId = uid, item1 = mbid,
                      item2 = ?iid, itemName = s_name it,
                      reasoning = ''Based on its similarity as a '' @ s_type it @
                                  '' and shared genres. (LLM not available)'',
                      confidence = s_score it / 100,
                      feedback = None, createdAt = clock e (Suc (clock_reads s))\<rparr>"
  let ?cond = "int (length uniq) < amount \<and> ?iid \<notin> set uniq \<and> ?nn \<notin> set seen \<and>
               ?nn \<notin> set fbI \<and> ?nn \<notin> set fbN"
  from Cons.prems(2) have inv: "length uniq = length acc"
      "seen = map (\<lambda>d. toLowerCase (itemName d)) acc"
      "distinct seen"
      "list_all (\<lambda>i. list_ex (\<lambda>d. nameSlug (itemName d) = slugOfId uid i) acc) uniq"
      "int (length acc) \<le> amount"
    unfolding fallbackInv_def by blast+
  show ?case
  proof (cases ?cond)
    case True
    with Cons.prems(1) have run:
      "fallbackLoop e uid mbid amount fbI fbN its (acc @ [?doc], uniq @ [?iid], seen @ [?nn])
         (s\<lparr>ids_issued := Suc (ids_issued s), clock_reads := Suc (Suc (clock_reads s))\<rparr>)
       = ((acc', uniq', seen'), s')"
      by (simp add: fallbackLoop_Cons del: fallbackLoop.simps)
    have inv': "fallbackInv uid amount (acc @ [?doc]) (uniq @ [?iid]) (seen @ [?nn])"
      using inv True
      by (auto simp: fallbackInv_def slug_of_itemId list_all_iff list_ex_iff)
    from Cons.IH [OF run inv']
    obtain ys where I: "fallbackInv uid amount acc' uniq' seen'"
      and ys: "acc' = (acc @ [?doc]) @ ys" "subseq (map itemName ys) (map s_name its)"
        "\<forall>d \<in> set ys. toLowerCase (itemName d) \<notin> set (seen @ [?nn]) \<and>
                   toLowerCase (itemName d) \<notin> set fbI \<and> toLowerCase (itemName d) \<notin> set fbN"
      and ex: "int (length acc') < amount \<longrightarrow>
            (\<forall>c \<in> set its. toLowerCase (s_name c) \<notin> set fbI \<and> toLowerCase (s_name c) \<notin> set fbN \<longrightarrow>
               nameSlug (s_name c) \<in> (\<lambda>d. nameSlug (itemName d)) ` set acc')"
      by blast
    have a: "acc' = acc @ (?doc # ys)" using ys(1) by simp
    have b: "subseq (map itemName (?doc # ys)) (map s_name (it # its))"
      using ys(2) by simp
    have c: "\<forall>d \<in> set (?doc # ys). toLowerCase (itemName d) \<notin> set seen \<and>
                   toLowerCase (itemName d) \<notin> set fbI \<and> toLowerCase (itemName d) \<notin> set fbN"
      using ys(3) True by simp
    have din: "?doc \<in> set acc'" using a by simp
    have "nameSlug (s_name it) = (\<lambda>d. nameSlug (itemName d)) ?doc" by simp
    then have "nameSlug (s_name it) \<in> (\<lambda>d. nameSlug (itemName d)) ` set acc'"
      using din by (rule image_eqI)
    with ex have d: "int (length acc') < amount \<longrightarrow>
            (\<forall>c \<in> set (it # its). toLowerCase (s_name c) \<notin> set fbI \<and> toLowerCase (s_name c) \<notin> set fbN \<longrightarrow>
               nameSlug (s_name c) \<in> (\<lambda>d. nameSlug (itemName d)) ` set acc')"
      by simp
    show ?thesis
    proof (intro conjI)
      show "fallbackInv uid amount acc' uniq' seen'" by (rule I)
      show "\<exists>ys. acc' = acc @ ys \<and> subseq (map itemName ys) (map s_name (it # its)) \<and>
               (\<forall>d \<in> set ys. toLowerCase (itemName d) \<notin> set seen \<and>
                   toLowerCase (itemName d) \<notin> set fbI \<and> toLowerCase (itemName d) \<notin> set fbN)"
        using a b c by (intro exI [of _ "?doc # ys"] conjI)
      show "int (length acc') < amount \<longrightarrow>
            (\<forall>c \<in> set (it # its). toLowerCase (s_name c) \<notin> set fbI \<and> toLowerCase (s_name c) \<notin> set fbN \<longrightarrow>
               nameSlug (s_name c) \<in> (\<lambda>d. nameSlug (itemName d)) ` set acc')"
        by (rule d)
    qed
  next
    case False
    with Cons.prems(1) have run:
      "fallbackLoop e uid mbid amount fbI fbN its (acc, uniq, seen)
         (s\<lparr>clock_reads := Suc (clock_reads s)\<rparr>) = ((acc', uniq', seen'), s')"
      by (simp add: fallbackLoop_Cons del: fallbackLoop.simps)
    from Cons.IH [OF run Cons.prems(2)]
    obtain ys where I: "fallbackInv uid amount acc' uniq' seen'"
      and ys: "acc' = acc @ ys" "subseq (map itemName ys) (map s_name its)"
        "\<forall>d \<in> set ys. toLowerCase (itemName d) \<notin> set seen \<and>
                   toLowerCase (itemName d) \<notin> set fbI \<and> toLowerCase (itemName d) \<notin> set fbN"
      and ex: "int (length acc') < amount \<longrightarrow>
            (\<forall>c \<in> set its. toLowerCase (s_name c) \<notin> set fbI \<and> toLowerCase (s_name c) \<notin> set fbN \<longrightarrow>
               nameSlug (s_name c) \<in> (\<lambda>d. nameSlug (itemName d)) ` set acc')"
      by blast
    have b: "subseq (map itemName ys) (map s_name (it # its))"
      using ys(2) by (simp add: list_emb_Cons)
    have hd: "int (length acc') < amount \<Longrightarrow> ?nn \<notin> set fbI \<Longrightarrow> ?nn \<notin> set fbN \<Longrightarrow>
              nameSlug (s_name it) \<in> (\<lambda>d. nameSlug (itemName d)) ` set acc'"
    proof -
      assume lt: "int (length acc') < amount" and nf: "?nn \<notin> set fbI" "?nn \<notin> set fbN"
      from lt ys(1) inv(1) have "int (length uniq) < amount" by simp
      with False nf have "?iid \<in> set uniq \<or> ?nn \<in> set seen" by blast
      then show ?thesis
      proof
        assume "?iid \<in> set uniq"
        with inv(4) obtain d where "d \<in> set acc"
          "nameSlug (itemName d) = slugOfId uid ?iid"
          by (auto simp: list_all_iff list_ex_iff)
        then have "d \<in> set acc'" "nameSlug (itemName d) = nameSlug (s_name it)"
          using ys(1) by (simp_all only: slug_of_itemId set_append UnI1)
        then show ?thesis by (intro image_eqI [where x = d]) simp_all
      next
        assume "?nn \<in> set seen"
        then have "?nn \<in> (\<lambda>d. toLowerCase (itemName d)) ` set acc"
          by (simp only: inv(2) set_map)
        then obtain d where "d \<in> set acc" "?nn = toLowerCase (itemName d)"
          by (rule imageE)
        then have "d \<in> set acc'" "nameSlug (itemName d) = nameSlug (s_name it)"
          using ys(1) by (simp_all add: nameSlug_lower [of "itemName d" "s_name it"])
        then show ?thesis by (intro image_eqI [where x = d]) simp_all
      qed
    qed
    with ex have d: "int (length acc') < amount \<longrightarrow>
            (\<forall>c \<in> set (it # its). toLowerCase (s_name c) \<notin> set fbI \<and> toLowerCase (s_name c) \<notin> set fbN \<longrightarrow>
               nameSlug (s_name c) \<in> (\<lambda>d. nameSlug (itemName d)) ` set acc')"
      by simp
    show ?thesis
    proof (intro conjI)
      show "fallbackInv uid amount acc' uniq' seen'" by (rule I)
      show "\<exists>ys. acc' = acc @ ys \<and> subseq (map itemName ys) (map s_name (it # its)) \<and>
               (\<forall>d \<in> set ys. toLowerCase (itemName d) \<notin> set seen \<and>
                   toLowerCase (itemName d) \<notin> set fbI \<and> toLowerCase (itemName d) \<notin> set fbN)"
        using ys(1) b ys(3) by (intro exI [of _ ys] conjI)
      show "int (length acc') < amount \<longrightarrow>
            (\<forall>c \<in> set (it # its). toLowerCase (s_name c) \<notin> set fbI \<and> toLowerCase (s_name c) \<notin> set fbN \<longrightarrow>
               nameSlug (s_name c) \<in> (\<lambda>d. nameSlug (itemName d)) ` set acc')"
        by (rule d)
    qed
  qed
qed

text \<open>The fallback path of \<open>generate\<close>, as one run of the loop from the empty accumulator.\<close>

lemma generate_fallback_unfold:
  assumes "geminiLLM e = None" and "uid \<noteq> []" and "sourceItem \<noteq> []" and "0 < amount"
  shows "fst (generate e uid sourceItem amount meta sa sr sg s) =
           Inr (fst (fst (fallbackLoop e uid (resolveMBID meta sourceItem) amount
                  (flaggedNames uid (resolveMBID meta sourceItem) s)
                  (lowerNames (filter (\<lambda>d. userId d = uid \<and>
                                           item1 d = resolveMBID meta sourceItem \<and>
                                           feedback d \<noteq> None) (recommendations s)))
                  (fallbackWindow amount (allSimilarItems sa sr sg)) ([], [], [])
                  (s\<lparr>calls := calls s @ [Find, Find, Find]\<rparr>))))"
  using assms resolveMBID_nonempty [of sourceItem meta]
  by (simp add: generate_def getFeedbackHistory_def findDocs_def
        generateFallbackRecommendations_def flaggedNames_def Let_def comp_def
        split: prod.splits)

lemma lowerNames_flagged:
  "set (lowerNames (filter (\<lambda>d. userId d = uid \<and> item1 d = mbid \<and> feedback d \<noteq> None)
                      (recommendations s)))
     \<subseteq> set (flaggedNames uid mbid s)"
  by (auto simp: lowerNames_def flaggedNames_def toLowerCase_def)

lemma sorted_by_score:
  "sorted_wrt scoreDescending (sort_by (\<lambda>a b. s_score b - s_score a) items)"
proof -
  have "sorted_wrt (\<lambda>a b. s_score b - s_score a \<le> 0) (sort_by (\<lambda>a b. s_score b - s_score a) items)"
    by (rule sorted_sort_by) auto
  then show ?thesis by (simp add: scoreDescending_def [abs_def])
qed

lemma count_slugs:
  assumes "\<forall>c \<in> set items. toLowerCase (s_name c) \<notin> set flagged \<longrightarrow>
             nameSlug (s_name c) \<in> f ` set recs"
  shows "length (acceptableSlugs flagged items) \<le> length recs"
proof -
  have "set (acceptableSlugs flagged items) \<subseteq> f ` set recs"
    using assms by (auto simp: acceptableSlugs_def)
  then have "card (set (acceptableSlugs flagged items)) \<le> card (f ` set recs)"
    by (intro card_mono) auto
  also have "\<dots> \<le> card (set recs)" by (rule card_image_le) simp
  also have "\<dots> \<le> length recs" by (rule card_length)
  finally have "card (set (acceptableSlugs flagged items)) \<le> length recs" .
  moreover have "distinct (acceptableSlugs flagged items)"
    by (simp add: acceptableSlugs_def)
  ultimately show ?thesis by (simp add: distinct_card)
qed

text \<open>On the fallback path the lowercased names of the returned records are all different.\<close>

lemma generate_fallback_distinct_names:
  assumes llm: "geminiLLM e = None"
    and res: "fst (generate e uid sourceItem amount meta sa sr sg s) = Inr recs"
  shows "distinct (map (\<lambda>d. toLowerCase (itemName d)) recs)"
proof -
  let ?mbid = "resolveMBID meta sourceItem"
  let ?F = "flaggedNames uid ?mbid s"
  let ?N = "lowerNames (filter (\<lambda>d. userId d = uid \<and> item1 d = ?mbid \<and> feedback d \<noteq> None)
                          (recommendations s))"
  let ?W = "fallbackWindow amount (allSimilarItems sa sr sg)"
  let ?s3 = "s\<lparr>calls := calls s @ [Find, Find, Find]\<rparr>"
  from res have valid: "uid \<noteq> []" "sourceItem \<noteq> []" "0 < amount"
    by (auto simp: generate_def split: if_splits)
  obtain r s' where "fallbackLoop e uid ?mbid amount ?F ?N ?W ([], [], []) ?s3 = (r, s')"
    by (cases "fallbackLoop e uid ?mbid amount ?F ?N ?W ([], [], []) ?s3")
  moreover obtain acc' uniq' seen' where "r = (acc', uniq', seen')" by (cases r)
  ultimately have run:
    "fallbackLoop e uid ?mbid amount ?F ?N ?W ([], [], []) ?s3 = ((acc', uniq', seen'), s')"
    by simp
  have "fallbackInv uid amount [] [] []"
    using valid(3) by (simp add: fallbackInv_def)
  from fallbackLoop_props [OF run this] have "fallbackInv uid amount acc' uniq' seen'"
    by blast
  then have "distinct (map (\<lambda>d. toLowerCase (itemName d)) acc')"
    unfolding fallbackInv_def by auto
  moreover have "fst (generate e uid sourceItem amount meta sa sr sg s) = Inr acc'"
    using generate_fallback_unfold [OF llm valid, of meta sa sr sg s] run by simp
  ultimately show ?thesis using res by simp
qed

text \<open>
  What holds of every run of the fallback path. The merged candidate list is sorted by
  score, descending, and only its first \<open>2 * amount\<close> entries are visited. The returned
  records are named after a subsequence of these entries, no name is feedback-flagged,
  the lowercased names are pairwise different, and there are at most \<open>amount\<close> records.
  When fewer are returned, every unflagged entry among the first \<open>2 * amount\<close> has the
  identifier slug of a returned record; so exactly \<open>amount\<close> records are returned
  whenever these entries hold at least \<open>amount\<close> unflagged candidates with pairwise
  different slugs.
\<close>

lemma generate_fallback_bounds:
  assumes "geminiLLM e = None" and "uid \<noteq> []" and "sourceItem \<noteq> []" and "0 < amount"
  shows "(\<exists>ranked. mset ranked = mset (allSimilarItems sa sr sg) \<and>
                   sorted_wrt scoreDescending ranked \<and>
                   fallbackWindow amount (allSimilarItems sa sr sg) =
                     take (nat (amount * 2)) ranked) \<and>
         (\<exists>recs.
            fst (generate e uid sourceItem amount meta sa sr sg s) = Inr recs \<and>
            subseq (map itemName recs)
              (map s_name (fallbackWindow amount (allSimilarItems sa sr sg))) \<and>
            (\<forall>d \<in> set recs.
               toLowerCase (itemName d) \<notin> set (flaggedNames uid (resolveMBID meta sourceItem) s)) \<and>
            distinct (map (\<lambda>d. toLowerCase (itemName d)) recs) \<and>
            int (length recs) \<le> amount \<and>
            (int (length recs) < amount \<longrightarrow>
               (\<forall>c \<in> set (fallbackWindow amount (allSimilarItems sa sr sg)).
                  toLowerCase (s_name c) \<notin> set (flaggedNames uid (resolveMBID meta sourceItem) s) \<longrightarrow>
                  nameSlug (s_name c) \<in> (\<lambda>d. nameSlug (itemName d)) ` set recs)) \<and>
            (amount \<le> int (length (acceptableSlugs
                                      (flaggedNames uid (resolveMBID meta sourceItem) s)
                                      (fallbackWindow amount (allSimilarItems sa sr sg)))) \<longrightarrow>
               int (length recs) = amount))"
proof
  show "\<exists>ranked. mset ranked = mset (allSimilarItems sa sr sg) \<and>
                   sorted_wrt scoreDescending ranked \<and>
                   fallbackWindow amount (allSimilarItems sa sr sg) =
                     take (nat (amount * 2)) ranked"
    using mset_sort_by [of "\<lambda>a b. s_score b - s_score a" "allSimilarItems sa sr sg"]
      sorted_by_score [of "allSimilarItems sa sr sg"]
    unfolding fallbackWindow_def by blast
next
  let ?mbid = "resolveMBID meta sourceItem"
  let ?F = "flaggedNames uid ?mbid s"
  let ?N = "lowerNames (filter (\<lambda>d. userId d = uid \<and> item1 d = ?mbid \<and> feedback d \<noteq> None)
                          (recommendations s))"
  let ?W = "fallbackWindow amount (allSimilarItems sa sr sg)"
  let ?s3 = "s\<lparr>calls := calls s @ [Find, Find, Find]\<rparr>"
  obtain r s' where "fallbackLoop e uid ?mbid amount ?F ?N ?W ([], [], []) ?s3 = (r, s')"
    by (cases "fallbackLoop e uid ?mbid amount ?F ?N ?W ([], [], []) ?s3")
  moreover obtain recs uniq' seen' where "r = (recs, uniq', seen')" by (cases r)
  ultimately have run:
    "fallbackLoop e uid ?mbid amount ?F ?N ?W ([], [], []) ?s3 = ((recs, uniq', seen'), s')"
    by simp
  have inv0: "fallbackInv uid amount [] [] []"
    using assms(4) by (simp add: fallbackInv_def)
  from fallbackLoop_props [OF run inv0]
  have I: "fallbackInv uid amount recs uniq' seen'"
    and sub: "subseq (map itemName recs) (map s_name ?W)"
    and unfl: "\<forall>d \<in> set recs. toLowerCase (itemName d) \<notin> set ?F"
    and exh: "int (length recs) < amount \<longrightarrow>
            (\<forall>c \<in> set ?W. toLowerCase (s_name c) \<notin> set ?F \<and> toLowerCase (s_name c) \<notin> set ?N \<longrightarrow>
               nameSlug (s_name c) \<in> (\<lambda>d. nameSlug (itemName d)) ` set recs)"
    by auto
  have sub_flag: "set ?N \<subseteq> set ?F" by (rule lowerNames_flagged)
  have gen: "fst (generate e uid sourceItem amount meta sa sr sg s) = Inr recs"
    using generate_fallback_unfold [OF assms, of meta sa sr sg s] run by simp
  from I have dist: "distinct (map (\<lambda>d. toLowerCase (itemName d)) recs)"
    and le: "int (length recs) \<le> amount"
    unfolding fallbackInv_def by auto
  from exh sub_flag
  have exh': "int (length recs) < amount \<longrightarrow>
               (\<forall>c \<in> set ?W. toLowerCase (s_name c) \<notin> set ?F \<longrightarrow>
                  nameSlug (s_name c) \<in> (\<lambda>d. nameSlug (itemName d)) ` set recs)"
    by blast
  have cnt: "amount \<le> int (length (acceptableSlugs ?F ?W)) \<longrightarrow> int (length recs) = amount"
  proof
    assume many: "amount \<le> int (length (acceptableSlugs ?F ?W))"
    have "\<not> int (length recs) < amount"
    proof
      assume lt: "int (length recs) < amount"
      with exh' have "\<forall>c \<in> set ?W. toLowerCase (s_name c) \<notin> set ?F \<longrightarrow>
                  nameSlug (s_name c) \<in> (\<lambda>d. nameSlug (itemName d)) ` set recs"
        by blast
      then have "length (acceptableSlugs ?F ?W) \<le> length recs" by (rule count_slugs)
      with many lt show False by simp
    qed
    with le show "int (length recs) = amount" by simp
  qed
  from gen sub unfl dist le exh' cnt
  show "\<exists>recs.
            fst (generate e uid sourceItem amount meta sa sr sg s) = Inr recs \<and>
            subseq (map itemName recs) (map s_name ?W) \<and>
            (\<forall>d \<in> set recs. toLowerCase (itemName d) \<notin> set ?F) \<and>
            distinct (map (\<lambda>d. toLowerCase (itemName d)) recs) \<and>
            int (length recs) \<le> amount \<and>
            (int (length recs) < amount \<longrightarrow>
               (\<forall>c \<in> set ?W. toLowerCase (s_name c) \<notin> set ?F \<longrightarrow>
                  nameSlug (s_name c) \<in> (\<lambda>d. nameSlug (itemName d)) ` set recs)) \<and>
            (amount \<le> int (length (acceptableSlugs ?F ?W)) \<longrightarrow> int (length recs) = amount)"
    by (intro exI [of _ recs] conjI)
qed

lemma generate_fallback_bounds_example:
  "geminiLLM ex_env = None \<and>
   2 \<le> int (length (acceptableSlugs (flaggedNames ''u'' (resolveMBID ex_meta ''src'') ex_empty)
                      (fallbackWindow 2 (allSimilarItems ex_two [] [])))) \<and>
   fst (generate ex_env ''u'' ''src'' 2 ex_meta ex_two [] [] ex_empty) =
     Inr [ex_fallback_doc ''id0'' ''rec:u:muse:1000'' ''Muse'' (95 / 100) 1001,
          ex_fallback_doc ''id1'' ''rec:u:pink-floyd:1002'' ''Pink Floyd'' (70 / 100) 1003] \<and>
   (\<exists>recs. fst (generate ex_env ''u'' ''src'' 2 ex_meta ex_two [] [] ex_empty) = Inr recs \<and>
           subseq (map itemName recs) (map s_name (fallbackWindow 2 (allSimilarItems ex_two [] []))) \<and>
           int (length recs) = 2)"
proof -
  have h: "geminiLLM ex_env = None" "''u'' \<noteq> []" "''src'' \<noteq> []" "(0::int) < 2"
    by (simp_all add: ex_env_def)
  have many: "2 \<le> int (length (acceptableSlugs (flaggedNames ''u'' (resolveMBID ex_meta ''src'') ex_empty)
                      (fallbackWindow 2 (allSimilarItems ex_two [] []))))"
    by code_simp
  have res: "fst (generate ex_env ''u'' ''src'' 2 ex_meta ex_two [] [] ex_empty) =
     Inr [ex_fallback_doc ''id0'' ''rec:u:muse:1000'' ''Muse'' (95 / 100) 1001,
          ex_fallback_doc ''id1'' ''rec:u:pink-floyd:1002'' ''Pink Floyd'' (70 / 100) 1003]"
    by code_simp
  from generate_fallback_bounds [OF h, of ex_two "[]" "[]" ex_meta ex_empty] many
  have "\<exists>recs. fst (generate ex_env ''u'' ''src'' 2 ex_meta ex_two [] [] ex_empty) = Inr recs \<and>
           subseq (map itemName recs) (map s_name (fallbackWindow 2 (allSimilarItems ex_two [] []))) \<and>
           int (length recs) = 2"
    by blast
  with h(1) many res show ?thesis by blast
qed

text \<open>
  Two names with different lowercased forms and one slug get the same identifier when
  the clock does not advance between them, and the second is skipped: the bound above
  counts slugs, not lowercased names.
\<close>

lemma generate_fallback_same_slug:
  "toLowerCase ''AC/DC'' \<noteq> toLowerCase ''AC-DC'' \<and>
   fst (generate ex_env_same_ms ''u'' ''src'' 2 ex_meta ex_same_slug [] [] ex_empty) =
     Inr [ex_fallback_doc ''id0'' ''rec:u:ac-dc:1000'' ''AC/DC'' (90 / 100) 1000]"
  by code_simp

text \<open>\<open>toLowerCase\<close> on a Latin-1 letter: U+00D6 in upper case becomes U+00F6.\<close>

lemma toLowerCase_latin1:
  "toLowerCase [CHR ''B'', CHR ''J'', CHR 0xD6, CHR ''R'', CHR ''K''] =
     [CHR ''b'', CHR ''j'', CHR 0xF6, CHR ''r'', CHR ''k'']"
  by code_simp

text \<open>
  C6 (the slice to \<open>2 * amount\<close> entries is taken before the greedy pass and before the
  feedback filter). With \<open>amount\<close> 2, the merged list holds two acceptable candidates
  (Muse and Queen), but its four best entries are spellings of one name, and one record
  is returned. With \<open>amount\<close> 1 and the two best candidates already judged by the user,
  the third (Queen) is acceptable, and no record is returned.
\<close>

theorem generate_fallback_slice_misses:
  "2 \<le> int (length (acceptableSlugs (flaggedNames ''u'' (resolveMBID ex_meta ''src'') ex_empty)
                      (allSimilarItems ex_variants [] []))) \<and>
   fst (generate ex_env ''u'' ''src'' 2 ex_meta ex_variants [] [] ex_empty) =
     Inr [ex_fallback_doc ''id0'' ''rec:u:muse:1000'' ''Muse'' (90 / 100) 1001] \<and>
   1 \<le> int (length (acceptableSlugs (flaggedNames ''u'' (resolveMBID ex_meta ''src'') ex_judged)
                      (allSimilarItems ex_three [] []))) \<and>
   fst (generate ex_env ''u'' ''src'' 1 ex_meta ex_three [] [] ex_judged) = Inr []"
  by code_simp

subsection \<open>generate: the LLM path\<close>

lemma llmLoop_Cons:
  "llmLoop e uid mbid amount meta fbN recN (r # rs) acc s =
     (if int (length acc) \<ge> amount then (acc, s)
      else if llmAccepts meta fbN recN r
      then llmLoop e uid mbid amount meta fbN recN rs
             (acc @ [\<lparr>doc_id = ids e (ids_issued s), userId = uid, item1 = mbid,
                      item2 = itemId uid (llm_name r) (clock e (clock_reads s)),
                      itemName = llm_name r, reasoning = llm_reasoning r,
                      confidence = max 0 (min 1 (llm_confidence r)),
                      feedback = None, createdAt = clock e (Suc (clock_reads s))\<rparr>])
             (s\<lparr>ids_issued := Suc (ids_issued s), clock_reads := Suc (Suc (clock_reads s))\<rparr>)
      else llmLoop e uid mbid amount meta fbN recN rs acc (s\<lparr>clock_reads := Suc (clock_reads s)\<rparr>))"
  by (simp add: Date_now_def freshID_def Let_def)

text \<open>
  What holds of every record the LLM loop adds: the confidence is clamped, and the name
  is neither empty nor the name of the source item.
\<close>

lemma llmLoop_props:
  assumes "llmLoop e uid mbid amount meta fbN recN rs acc s = (acc', s')"
  shows "\<exists>ys. acc' = acc @ ys \<and>
           (\<forall>d \<in> set ys. 0 \<le> confidence d \<and> confidence d \<le> 1 \<and> itemName d \<noteq> [] \<and>
                          Some (itemName d) \<noteq> sourceName meta)"
  using assms
proof (induction rs arbitrary: acc s)
  case Nil
  then show ?case by simp
next
  case (Cons r rs)
  let ?doc = "\<lparr>doc_id = ids e (ids_issued s), userId = uid, item1 = mbid,
                      item2 = itemId uid (llm_name r) (clock e (clock_reads s)),
                      itemName = llm_name r, reasoning = llm_reasoning r,
                      confidence = max 0 (min 1 (llm_confidence r)),
                      feedback = None, createdAt = clock e (Suc (clock_reads s))\<rparr>"
  show ?case
  proof (cases "int (length acc) \<ge> amount")
    case True
    with Cons.prems have "acc' = acc" by (simp add: llmLoop_Cons del: llmLoop.simps)
    then show ?thesis by simp
  next
    case full: False
    show ?thesis
    proof (cases "llmAccepts meta fbN recN r")
      case True
      with full Cons.prems have
        "llmLoop e uid mbid amount meta fbN recN rs (acc @ [?doc])
           (s\<lparr>ids_issued := Suc (ids_issued s), clock_reads := Suc (Suc (clock_reads s))\<rparr>) = (acc', s')"
        by (simp add: llmLoop_Cons del: llmLoop.simps)
      from Cons.IH [OF this] obtain ys where ys: "acc' = (acc @ [?doc]) @ ys"
        "\<forall>d \<in> set ys. 0 \<le> confidence d \<and> confidence d \<le> 1 \<and> itemName d \<noteq> [] \<and>
                          Some (itemName d) \<noteq> sourceName meta"
        by blast
      from True have "llm_name r \<noteq> []" "Some (llm_name r) \<noteq> sourceName meta"
        by (simp_all add: llmAccepts_def Let_def)
      then have "0 \<le> confidence ?doc \<and> confidence ?doc \<le> 1 \<and> itemName ?doc \<noteq> [] \<and>
                 Some (itemName ?doc) \<noteq> sourceName meta"
        by simp
      with ys(2) have "\<forall>d \<in> set (?doc # ys). 0 \<le> confidence d \<and> confidence d \<le> 1 \<and>
                          itemName d \<noteq> [] \<and> Some (itemName d) \<noteq> sourceName meta"
        by simp
      moreover from ys(1) have "acc' = acc @ (?doc # ys)" by simp
      ultimately show ?thesis by blast
    next
      case False
      with full Cons.prems have
        "llmLoop e uid mbid amount meta fbN recN rs acc (s\<lparr>clock_reads := Suc (clock_reads s)\<rparr>) = (acc', s')"
        by (simp add: llmLoop_Cons del: llmLoop.simps)
      from Cons.IH [OF this] show ?thesis .
    qed
  qed
qed

lemma generate_llm_records:
  assumes llm: "geminiLLM e = Some c"
    and res: "fst (generate e uid sourceItem amount meta sa sr sg s) = Inr recs"
    and d: "d \<in> set recs"
  shows "0 \<le> confidence d \<and> confidence d \<le> 1 \<and> Some (itemName d) \<noteq> sourceName meta"
proof -
  let ?mbid = "resolveMBID meta sourceItem"
  let ?s3 = "s\<lparr>calls := calls s @ [Find, Find, Find]\<rparr>"
  let ?fbN = "lowerNames (filter (\<lambda>d. userId d = uid \<and> item1 d = ?mbid \<and> feedback d \<noteq> None)
                            (recommendations s))"
  let ?recN = "lowerNames (filter (\<lambda>d. userId d = uid \<and> item1 d = ?mbid) (recommendations s))"
  from res have valid: "uid \<noteq> []" "sourceItem \<noteq> []" "0 < amount"
    by (auto simp: generate_def split: if_splits)
  from res valid llm generate_throws [OF valid, of e _ meta sa sr sg s]
  obtain resp where c: "c = Returns resp" by (cases c) auto
  from res valid llm c generate_unparseable [OF valid, of e resp meta sa sr sg s]
  obtain parsed where p: "parseJSONFromLLMResponse e resp = Some parsed"
    by (cases "parseJSONFromLLMResponse e resp") auto
  obtain acc' s' where run: "llmLoop e uid ?mbid amount meta ?fbN ?recN parsed [] ?s3 = (acc', s')"
    by (cases "llmLoop e uid ?mbid amount meta ?fbN ?recN parsed [] ?s3")
  from valid llm c p run have "fst (generate e uid sourceItem amount meta sa sr sg s) = Inr acc'"
    by (simp add: generate_def getFeedbackHistory_def findDocs_def Let_def)
  with res have "recs = acc'" by simp
  with llmLoop_props [OF run] d show ?thesis by auto
qed

subsection \<open>Where generate departs from the claims C1, C2 and C3\<close>

text \<open>
  C1 (the LLM path keeps no record of the names chosen in the batch). A completion that
  names ``Muse'' twice gives two records named ``Muse''.
\<close>

theorem generate_llm_repeats_name:
  "fst (generate ex_env_llm ''u'' ''src'' 2 ex_meta [] [] [] ex_empty) =
     Inr [\<lparr>doc_id = ''id0'', userId = ''u'', item1 = ''src'', item2 = ''rec:u:muse:1000'',
           itemName = ''Muse'', reasoning = ''first'', confidence = 9 / 10,
           feedback = None, createdAt = 1001\<rparr>,
          \<lparr>doc_id = ''id1'', userId = ''u'', item1 = ''src'', item2 = ''rec:u:muse:1002'',
           itemName = ''Muse'', reasoning = ''second'', confidence = 8 / 10,
           feedback = None, createdAt = 1003\<rparr>]"
  by code_simp

text \<open>
  C2 (the fallback path does not look at the source item's name). A similar artist that
  carries the name of the source item is recommended.
\<close>

theorem generate_fallback_recommends_source:
  "sourceName ex_meta = Some ''Radiohead'' \<and>
   fst (generate ex_env ''u'' ''src'' 1 ex_meta [ex_artist ''Radiohead'' 90] [] [] ex_empty) =
     Inr [ex_fallback_doc ''id0'' ''rec:u:radiohead:1000'' ''Radiohead'' (90 / 100) 1001]"
  by code_simp

text \<open>
  C3 (the fallback path divides the score by 100 and does not clamp). A score of 150
  gives the confidence 1.5.
\<close>

theorem generate_fallback_confidence_above_one:
  "fst (generate ex_env ''u'' ''src'' 1 ex_meta [ex_artist ''Muse'' 150] [] [] ex_empty) =
     Inr [ex_fallback_doc ''id0'' ''rec:u:muse:1000'' ''Muse'' (3 / 2) 1001] \<and>
   \<not> confidence (ex_fallback_doc ''id0'' ''rec:u:muse:1000'' ''Muse'' (3 / 2) 1001) \<le> 1"
  by code_simp

end
